theory Spec2Isabelle
  imports Complex_Main "HOL-Library.Log_Nat"
begin

section \<open>JavaScript numbers\<close>

text \<open>
  Every number of the source is an IEEE 754 double.  A finite double is read as the
  rational it denotes.  The arithmetic operators of the source compute the exact result
  and round it to the nearest double, ties to even (53 significant bits); that is
  \<open>fl\<close>.  Overflow, subnormals, NaN and the infinities are not modelled: the one place
  of the modelled code where a NaN can arise from finite operands (a division \<open>0 / 0\<close>)
  is a result of its own, \<open>NaN_Position\<close>.  Comparisons and \<open>Math.floor\<close>,
  \<open>Math.ceil\<close> are exact.
\<close>

type_synonym number = rat

definition expo :: "number \<Rightarrow> int" where
  \<comment> \<open>the binary exponent of a non-zero \<open>x\<close>: \<open>2 powi expo x \<le> \<bar>x\<bar> < 2 powi (expo x + 1)\<close>\<close>
  "expo x =
     (let (p, q) = quotient_of x;
          e0 = bitlen \<bar>p\<bar> - bitlen q
      in if 2 powi e0 \<le> \<bar>x\<bar> then e0 else e0 - 1)"

definition round_even :: "number \<Rightarrow> int" where
  "round_even x =
     (let n = \<lfloor>x\<rfloor>; d = x - of_int n
      in if d < 1 / 2 then n
         else if 1 / 2 < d then n + 1
         else if even n then n else n + 1)"

definition fl :: "number \<Rightarrow> number" where
  "fl x = (if x = 0 then 0
           else let u = 2 powi (expo x - 52) in of_int (round_even (x / u)) * u)"

definition fadd :: "number \<Rightarrow> number \<Rightarrow> number" where
  "fadd a b = fl (a + b)"

definition fsub :: "number \<Rightarrow> number \<Rightarrow> number" where
  "fsub a b = fl (a - b)"

definition fmul :: "number \<Rightarrow> number \<Rightarrow> number" where
  "fmul a b = fl (a * b)"

definition fdiv :: "number \<Rightarrow> number \<Rightarrow> number" where
  \<comment> \<open>the divisor is not zero wherever the model calls it\<close>
  "fdiv a b = fl (a / b)"


section \<open>Data model\<close>

text \<open>
  The types of \<open>types/vehicles\<close> as the component uses them and as the backend's
  responses are shaped.  A field keeps its name in the source; where two types of the
  source share a field name that is not inherited, the later one carries a prefix
  (\<open>move_\<close>, \<open>dr_\<close> for the deployment response, \<open>cfg_\<close> for a fleet configuration),
  and \<open>id\<close>, \<open>type\<close> of a trip are \<open>id'\<close>, \<open>type'\<close>.  An optional field is an
  \<open>option\<close>.
\<close>

datatype FleetType = fire | police

record LatLon =
  lat :: number
  lon :: number

record TripPoint = LatLon +
  time :: number

record StationInput = LatLon +
  station_id :: string
  vehicles_current :: number

record StationDeployment = StationInput +
  vehicles_target :: number
  local_risk :: number
  station_name :: "string option"
  name :: "string option"

text \<open>\<open>StationWithFlag\<close>: a station of a deployment with its fleet and the flag.\<close>

record Station = StationDeployment +
  fleet_type :: FleetType
  inMove :: bool

record Move =
  from_station_id :: string
  to_station_id :: string
  move_fleet_type :: FleetType

record DeploymentResponse =
  dr_fleet_type :: "FleetType option"
  dr_stations :: "StationDeployment list"
  dr_moves :: "Move list"
  total_travel_cost :: number

record RouteRequest =
  start_lat :: number
  start_lon :: number
  end_lat :: number
  end_lon :: number

record RouteJson =
  points :: "TripPoint list"

text \<open>\<open>TripWithMeta\<close>.\<close>

record Trip =
  id' :: string
  trip_fleet_type :: FleetType
  type' :: string
  side :: string
  path :: "TripPoint list"
  fromStationId :: "string option"
  toStationId :: "string option"
  fromStationName :: "string option"
  toStationName :: "string option"

record GridCell =
  cell_key :: string
  cellId :: number
  minLat :: number
  maxLat :: number
  minLon :: number
  maxLon :: number
  risk :: number

text \<open>The pair \<open>[lon, lat]\<close> returned by \<open>interpolatePosition\<close>; \<open>NaN_Position\<close> is
  \<open>[NaN, NaN]\<close>.\<close>

datatype position = Position number number | NaN_Position

definition SAMPLE_TRIPS :: "Trip list" where
  "SAMPLE_TRIPS =
     [\<lparr>id' = ''veh_101'', trip_fleet_type = fire, type' = ''fire_truck'', side = ''friendly'',
       path =
         [\<lparr>lat = fl (476 / 10), lon = fl (- 122345 / 1000), time = 0\<rparr>,
          \<lparr>lat = fl (47605 / 1000), lon = fl (- 12234 / 100), time = 60\<rparr>,
          \<lparr>lat = fl (4761 / 100), lon = fl (- 122335 / 1000), time = 120\<rparr>,
          \<lparr>lat = fl (47615 / 1000), lon = fl (- 12233 / 100), time = 180\<rparr>],
       fromStationId = None, toStationId = None,
       fromStationName = None, toStationName = None\<rparr>]"


section \<open>Position interpolator\<close>

text \<open>The body of the loop of \<open>interpolatePosition\<close> for a pair that brackets \<open>t\<close>.  The
  ratio is \<open>0 / 0\<close>, a NaN, when both times are equal; it then spreads to both
  coordinates.\<close>

definition interpolate_segment :: "TripPoint \<Rightarrow> TripPoint \<Rightarrow> number \<Rightarrow> position" where
  "interpolate_segment p0 p1 t =
     (if fsub (time p1) (time p0) = 0 then NaN_Position
      else
        let ratio = fdiv (fsub t (time p0)) (fsub (time p1) (time p0));
            lon' = fadd (lon p0) (fmul (fsub (lon p1) (lon p0)) ratio);
            lat' = fadd (lat p0) (fmul (fsub (lat p1) (lat p0)) ratio)
        in Position lon' lat')"

text \<open>The loop \<open>for (let i = 0; i < path.length - 1; i++)\<close>, on the rest of the path from
  index \<open>i\<close> on; \<open>None\<close> when it falls through.\<close>

fun segment_loop :: "TripPoint list \<Rightarrow> number \<Rightarrow> position option" where
  "segment_loop (p0 # p1 # ps) t =
     (if time p0 \<le> t \<and> t \<le> time p1 then Some (interpolate_segment p0 p1 t)
      else segment_loop (p1 # ps) t)"
| "segment_loop [p0] t = None"
| "segment_loop [] t = None"

definition interpolatePosition :: "TripPoint list \<Rightarrow> number \<Rightarrow> position" where
  \<comment> \<open>the parameter \<open>path\<close> of the source is \<open>pts\<close> here\<close>
  "interpolatePosition pts t =
     (if length pts = 0 then Position 0 0
      else if t \<le> time (pts ! 0) then Position (lon (pts ! 0)) (lat (pts ! 0))
      else if time (pts ! (length pts - 1)) \<le> t
        then Position (lon (pts ! (length pts - 1))) (lat (pts ! (length pts - 1)))
      else case segment_loop pts t of
             Some r \<Rightarrow> r
           | None \<Rightarrow> Position (lon (pts ! 0)) (lat (pts ! 0)))"


section \<open>Spatial grid indexer\<close>

definition GRID_MIN_LAT :: number where "GRID_MIN_LAT = fl (4748 / 100)"
definition GRID_MAX_LAT :: number where "GRID_MAX_LAT = fl (4775 / 100)"
definition GRID_MIN_LON :: number where "GRID_MIN_LON = fl (- 12245 / 100)"
definition GRID_MAX_LON :: number where "GRID_MAX_LON = fl (- 12222 / 100)"
definition GRID_LAT_STEP :: number where "GRID_LAT_STEP = fl (1 / 100)"
definition GRID_LON_STEP :: number where "GRID_LON_STEP = fl (1 / 100)"

definition nLat :: int where
  "nLat = \<lceil>fdiv (fsub GRID_MAX_LAT GRID_MIN_LAT) GRID_LAT_STEP\<rceil>"

definition nLon :: int where
  "nLon = \<lceil>fdiv (fsub GRID_MAX_LON GRID_MIN_LON) GRID_LON_STEP\<rceil>"

definition latLonToCellId :: "number \<Rightarrow> number \<Rightarrow> int option" where
  "latLonToCellId la lo =
     (let i = \<lfloor>fdiv (fsub la GRID_MIN_LAT) GRID_LAT_STEP\<rfloor>;
          j = \<lfloor>fdiv (fsub lo GRID_MIN_LON) GRID_LON_STEP\<rfloor>
      in if i < 0 \<or> j < 0 \<or> nLat \<le> i \<or> nLon \<le> j then None
         else Some (i * nLon + j))"


section \<open>Deployment and route orchestrator\<close>

text \<open>
  The backend is an input of \<open>fetchAll\<close>.  A request has three outcomes: the promise is
  rejected (\<open>fetch\<close> or \<open>json()\<close> throws), the response is not \<open>ok\<close>, or it is \<open>ok\<close>
  with its parsed body.  A route request is identified by the fleet of its
  configuration, the index of its move and its body, so that two requests with the same
  body may be answered differently.
\<close>

datatype 'a response = Rejected | NotOk | Ok 'a

record backend =
  optimize_deployment :: "FleetType \<Rightarrow> StationInput list \<Rightarrow> DeploymentResponse response"
  route :: "FleetType \<Rightarrow> nat \<Rightarrow> RouteRequest \<Rightarrow> RouteJson response"

text \<open>An exception that reaches the \<open>catch\<close> of \<open>fetchAll\<close>.\<close>

datatype error = Thrown

record FleetConfig =
  cfg_fleet_type :: FleetType
  cfg_stations :: "StationInput list"

text \<open>What one callback of \<open>deployment.moves.map\<close> resolves to, when not \<open>null\<close>.\<close>

record RouteEntry =
  routeJson :: RouteJson
  move :: Move
  from_station :: StationDeployment
  to_station :: StationDeployment

text \<open>The three accumulators of \<open>fetchAll\<close>, declared before the loop over the fleets.\<close>

record accumulators =
  allStations :: "Station list"
  allTrips :: "Trip list"
  activeStationIds :: "string set"

text \<open>The state of the component \<open>VehiclesMap\<close> that the modelled code reads or sets
  (\<open>useState\<close>), with its initial value.  \<open>trips\<close> is \<open>null\<close> until the first load.\<close>

record state =
  currentTime :: number
  playing :: bool
  playbackSpeed :: number
  trips :: "Trip list option"
  stations :: "Station list"
  selectedTripId :: "string option"
  selectedStationId :: "string option"
  selectedCellId :: "number option"

definition initial_state :: state where
  "initial_state =
     \<lparr>currentTime = 0, playing = True, playbackSpeed = 1, trips = None, stations = [],
      selectedTripId = None, selectedStationId = None, selectedCellId = None\<rparr>"

definition fleet_string :: "FleetType \<Rightarrow> string" where
  "fleet_string f = (case f of fire \<Rightarrow> ''fire'' | police \<Rightarrow> ''police'')"

text \<open>The decimal digits of an index, as a template literal prints it.\<close>

fun decimal :: "nat \<Rightarrow> string" where
  "decimal n =
     (if n < 10 then [''0123456789'' ! n]
      else decimal (n div 10) @ [''0123456789'' ! (n mod 10)])"

declare decimal.simps [simp del]

text \<open>\<open>deployment.moves.forEach\<close>: both endpoints of every move enter the set.\<close>

definition add_move_endpoints :: "Move list \<Rightarrow> string set \<Rightarrow> string set" where
  "add_move_endpoints ms active =
     fold (\<lambda>m a. insert (to_station_id m) (insert (from_station_id m) a)) ms active"

text \<open>\<open>{...s, fleet_type: fleetFromBackend, inMove: activeStationIds.has(s.station_id)}\<close>\<close>

definition with_fleet :: "FleetType \<Rightarrow> string set \<Rightarrow> StationDeployment \<Rightarrow> Station" where
  "with_fleet f active s =
     StationDeployment.extend s
       (Station.fields f (station_id s \<in> active))"

text \<open>\<open>stationById\<close>: a later station of the same id replaces an earlier one.  (Keys that a
  JavaScript object inherits, such as \<open>constructor\<close>, are not modelled.)\<close>

definition stationById :: "StationDeployment list \<Rightarrow> (string \<rightharpoonup> StationDeployment)" where
  "stationById ss = fold (\<lambda>s m. m(station_id s \<mapsto> s)) ss Map.empty"

text \<open>The callback of \<open>deployment.moves.map\<close> for the move of index \<open>i\<close>: \<open>Inr None\<close> is
  \<open>null\<close>, \<open>Inl Thrown\<close> a rejected promise.\<close>

definition route_callback ::
    "backend \<Rightarrow> FleetType \<Rightarrow> (string \<rightharpoonup> StationDeployment) \<Rightarrow> nat \<Rightarrow> Move
      \<Rightarrow> error + RouteEntry option" where
  "route_callback b f byId i m =
     (case (byId (from_station_id m), byId (to_station_id m)) of
        (Some from, Some to) \<Rightarrow>
          (case route b f i
                  \<lparr>start_lat = lat from, start_lon = lon from,
                   end_lat = lat to, end_lon = lon to\<rparr> of
             Rejected \<Rightarrow> Inl Thrown
           | NotOk \<Rightarrow> Inr None
           | Ok json \<Rightarrow>
               Inr (Some \<lparr>routeJson = json, move = m, from_station = from, to_station = to\<rparr>))
      | _ \<Rightarrow> Inr None)"

text \<open>\<open>await Promise.all\<close>: the results in the order of the promises, or the rejection
  of one of them.\<close>

fun promise_all :: "(error + 'a) list \<Rightarrow> error + 'a list" where
  "promise_all [] = Inr []"
| "promise_all (Inl e # rs) = Inl e"
| "promise_all (Inr x # rs) =
     (case promise_all rs of Inl e \<Rightarrow> Inl e | Inr xs \<Rightarrow> Inr (x # xs))"

definition routeResponses ::
    "backend \<Rightarrow> FleetType \<Rightarrow> DeploymentResponse \<Rightarrow> error + RouteEntry option list" where
  "routeResponses b f d =
     promise_all
       (map (\<lambda>(i, m). route_callback b f (stationById (dr_stations d)) i m)
          (enumerate 0 (dr_moves d)))"

definition display_name :: "StationDeployment \<Rightarrow> string \<Rightarrow> string" where
  \<comment> \<open>\<open>s.station_name ?? s.name ?? id\<close>\<close>
  "display_name s ident =
     (case station_name s of
        Some n \<Rightarrow> n
      | None \<Rightarrow> (case name s of Some n \<Rightarrow> n | None \<Rightarrow> ident))"

definition baseTrip :: "FleetType \<Rightarrow> nat \<Rightarrow> RouteEntry \<Rightarrow> Trip" where
  "baseTrip fleetFromBackend i entry =
     (let m = move entry in
      \<lparr>id' = fleet_string fleetFromBackend @ ''_'' @ from_station_id m @ ''_'' @
              to_station_id m @ ''_'' @ decimal i,
       trip_fleet_type = fleetFromBackend,
       type' = (if fleetFromBackend = fire then ''fire_truck'' else ''police_car''),
       side = ''friendly'',
       path = map (\<lambda>p. \<lparr>lat = lat p, lon = lon p, time = time p\<rparr>) (points (routeJson entry)),
       fromStationId = Some (from_station_id m),
       toStationId = Some (to_station_id m),
       fromStationName = Some (display_name (from_station entry) (from_station_id m)),
       toStationName = Some (display_name (to_station entry) (to_station_id m))\<rparr>)"

text \<open>The loop \<open>for (let i = 0; i < routeResponses.length; i++)\<close> from index \<open>i\<close> on: the
  trips it pushes, in order.\<close>

fun assemble_trips :: "FleetType \<Rightarrow> nat \<Rightarrow> RouteEntry option list \<Rightarrow> Trip list" where
  "assemble_trips f i [] = []"
| "assemble_trips f i (None # es) = assemble_trips f (Suc i) es"
| "assemble_trips f i (Some e # es) = baseTrip f i e # assemble_trips f (Suc i) es"

definition fleetFromBackend :: "FleetConfig \<Rightarrow> DeploymentResponse \<Rightarrow> FleetType" where
  \<comment> \<open>\<open>deployment.fleet_type ?? fleet_type\<close>\<close>
  "fleetFromBackend config d =
     (case dr_fleet_type d of Some f \<Rightarrow> f | None \<Rightarrow> cfg_fleet_type config)"

text \<open>One iteration of \<open>for (const config of fleetConfigs)\<close>.\<close>

definition process_fleet :: "backend \<Rightarrow> accumulators \<Rightarrow> FleetConfig \<Rightarrow> error + accumulators" where
  "process_fleet b acc config =
     (case optimize_deployment b (cfg_fleet_type config) (cfg_stations config) of
        Rejected \<Rightarrow> Inl Thrown
      | NotOk \<Rightarrow> Inr acc
      | Ok d \<Rightarrow>
          (let f = fleetFromBackend config d;
               active = add_move_endpoints (dr_moves d) (activeStationIds acc);
               stationsWithFleet = map (with_fleet f active) (dr_stations d)
           in case routeResponses b (cfg_fleet_type config) d of
                Inl e \<Rightarrow> Inl e
              | Inr rs \<Rightarrow>
                  Inr \<lparr>allStations = allStations acc @ stationsWithFleet,
                       allTrips = allTrips acc @ assemble_trips f 0 rs,
                       activeStationIds = active\<rparr>))"

fun fleets_loop :: "backend \<Rightarrow> accumulators \<Rightarrow> FleetConfig list \<Rightarrow> error + accumulators" where
  "fleets_loop b acc [] = Inr acc"
| "fleets_loop b acc (config # configs) =
     (case process_fleet b acc config of
        Inl e \<Rightarrow> Inl e
      | Inr acc' \<Rightarrow> fleets_loop b acc' configs)"

text \<open>The properties \<open>fireStations\<close>, \<open>policeStations\<close> are optional; their defaults
  \<open>FIRE_STATION_INPUTS\<close>, \<open>POLICE_STATION_INPUTS\<close> come from a module that is not part of the
  sources at hand, and are parameters.\<close>

definition fleetConfigs ::
    "StationInput list \<Rightarrow> StationInput list \<Rightarrow> StationInput list option \<Rightarrow> StationInput list option
      \<Rightarrow> FleetConfig list" where
  "fleetConfigs FIRE_STATION_INPUTS POLICE_STATION_INPUTS fireStations policeStations =
     [\<lparr>cfg_fleet_type = fire,
       cfg_stations = (case fireStations of Some ss \<Rightarrow> ss | None \<Rightarrow> FIRE_STATION_INPUTS)\<rparr>,
      \<lparr>cfg_fleet_type = police,
       cfg_stations = (case policeStations of Some ss \<Rightarrow> ss | None \<Rightarrow> POLICE_STATION_INPUTS)\<rparr>]"

definition no_accumulators :: accumulators where
  "no_accumulators = \<lparr>allStations = [], allTrips = [], activeStationIds = {}\<rparr>"

text \<open>The body of the \<open>try\<close> up to the end of the loop.\<close>

definition run_fleets :: "backend \<Rightarrow> FleetConfig list \<Rightarrow> error + accumulators" where
  "run_fleets b configs = fleets_loop b no_accumulators configs"

text \<open>\<open>fetchAll\<close>, from the list \<open>fleetConfigs\<close> that its first statement builds (the
  argument \<open>configs\<close>): the loop, then the three setters, or those of the \<open>catch\<close>.\<close>

definition fetchAll :: "backend \<Rightarrow> FleetConfig list \<Rightarrow> state \<Rightarrow> state" where
  "fetchAll b configs st =
     (case run_fleets b configs of
        Inr acc \<Rightarrow>
          st\<lparr>stations := allStations acc,
             trips := Some (if length (allTrips acc) = 0 then SAMPLE_TRIPS else allTrips acc),
             currentTime := 0\<rparr>
      | Inl e \<Rightarrow> st\<lparr>stations := [], trips := Some SAMPLE_TRIPS, currentTime := 0\<rparr>)"


section \<open>Context snapshot\<close>

text \<open>A string of the source is truthy when it is present and not empty.\<close>

definition truthy :: "string option \<Rightarrow> bool" where
  "truthy s = (case s of None \<Rightarrow> False | Some v \<Rightarrow> v \<noteq> [])"

record MoveContext =
  mc_from_station_id :: "string option"
  mc_to_station_id :: "string option"
  mc_fleet_type :: FleetType

text \<open>\<open>deployment.moves\<close> of the context, from the \<open>trips\<close> state (\<open>null\<close> before the first
  load).\<close>

definition context_moves :: "Trip list option \<Rightarrow> MoveContext list" where
  "context_moves trips_state =
     take 20
       (filter (\<lambda>m. truthy (mc_from_station_id m) \<and> truthy (mc_to_station_id m))
          (map (\<lambda>t. \<lparr>mc_from_station_id = fromStationId t, mc_to_station_id = toStationId t,
                      mc_fleet_type = trip_fleet_type t\<rparr>)
             (case trips_state of None \<Rightarrow> [] | Some ts \<Rightarrow> ts)))"


section \<open>Playback clock\<close>

definition terminal_time :: "Trip \<Rightarrow> number" where
  \<comment> \<open>\<open>t.path[t.path.length - 1]?.time ?? 0\<close>\<close>
  "terminal_time t =
     (if length (path t) = 0 then 0 else time (path t ! (length (path t) - 1)))"

text \<open>\<open>Math.max(...xs)\<close> is called on a list that is not empty; it is the fold of \<open>max\<close>
  from the first element.\<close>

definition maxTime :: "Trip list option \<Rightarrow> number" where
  "maxTime trips_state =
     (case trips_state of
        None \<Rightarrow> 0
      | Some [] \<Rightarrow> 0
      | Some (t # ts) \<Rightarrow> fold max (map terminal_time ts) (terminal_time t))"

text \<open>The effect installs the interval unless \<open>!playing || maxTime === 0\<close>.\<close>

definition interval_installed :: "state \<Rightarrow> bool" where
  "interval_installed st = (\<not> (\<not> playing st \<or> maxTime (trips st) = 0))"

text \<open>The updater that the interval passes to \<open>setCurrentTime\<close>.\<close>

definition tick_update :: "number \<Rightarrow> number \<Rightarrow> number \<Rightarrow> number" where
  "tick_update maxT speed prev =
     (if maxT = 0 then prev
      else let next = fadd prev speed in if maxT \<le> next then 0 else next)"

text \<open>One period of the interval.\<close>

definition tick :: "state \<Rightarrow> state" where
  "tick st =
     (if interval_installed st
      then st\<lparr>currentTime := tick_update (maxTime (trips st)) (playbackSpeed st) (currentTime st)\<rparr>
      else st)"

text \<open>The controls of the clock: the play button, the speed selector, the scrub slider.\<close>

datatype clock_event = Tick | TogglePlaying | SetPlaybackSpeed number | Seek number

fun clock_step :: "clock_event \<Rightarrow> state \<Rightarrow> state" where
  "clock_step Tick st = tick st"
| "clock_step TogglePlaying st = st\<lparr>playing := \<not> playing st\<rparr>"
| "clock_step (SetPlaybackSpeed v) st = st\<lparr>playbackSpeed := v\<rparr>"
| "clock_step (Seek v) st = st\<lparr>currentTime := v, playing := False\<rparr>"

definition seek_within :: "number \<Rightarrow> clock_event \<Rightarrow> bool" where
  "seek_within maxT e = (case e of Seek v \<Rightarrow> v \<le> maxT | _ \<Rightarrow> True)"


section \<open>Selection\<close>

text \<open>The \<open>onClick\<close> handlers of the three pickable layers, of the \<open>DeckGL\<close> component and
  of the close button of the popup.  The argument is \<open>info.object\<close>.\<close>

definition heatmap_onClick :: "GridCell option \<Rightarrow> state \<Rightarrow> state" where
  "heatmap_onClick object st =
     (case object of
        None \<Rightarrow> st
      | Some cell \<Rightarrow>
          st\<lparr>selectedCellId := Some (cellId cell), selectedTripId := None,
             selectedStationId := None\<rparr>)"

definition vehicleIcons_onClick :: "Trip option \<Rightarrow> state \<Rightarrow> state" where
  "vehicleIcons_onClick object st =
     (case object of
        None \<Rightarrow> st
      | Some t \<Rightarrow>
          st\<lparr>selectedTripId := Some (id' t), selectedStationId := None,
             selectedCellId := None\<rparr>)"

definition stationIcons_onClick :: "Station option \<Rightarrow> state \<Rightarrow> state" where
  "stationIcons_onClick object st =
     (case object of
        None \<Rightarrow> st
      | Some station \<Rightarrow>
          st\<lparr>selectedStationId := Some (station_id station), selectedTripId := None,
             selectedCellId := None\<rparr>)"

definition deck_onClick :: "bool \<Rightarrow> state \<Rightarrow> state" where
  \<comment> \<open>the argument: whether \<open>info.object\<close> is set\<close>
  "deck_onClick has_object st =
     (if \<not> has_object
      then st\<lparr>selectedTripId := None, selectedStationId := None, selectedCellId := None\<rparr>
      else st)"

definition close_onClick :: "state \<Rightarrow> state" where
  "close_onClick st =
     st\<lparr>selectedTripId := None, selectedStationId := None, selectedCellId := None\<rparr>"

text \<open>What a click on the map picks: an object of a pickable layer, or nothing (the
  background, or the layer of the paths, which is not pickable).  The rendering library
  calls the handler of the picked layer, then, since no handler of a layer returns
  \<open>true\<close>, the handler of the \<open>DeckGL\<close> component with the same \<open>info\<close>.\<close>

datatype selection_event =
    ClickCell GridCell
  | ClickTrip Trip
  | ClickStation Station
  | ClickBackground
  | ClickClose

fun select_step :: "selection_event \<Rightarrow> state \<Rightarrow> state" where
  "select_step (ClickCell c) st = deck_onClick True (heatmap_onClick (Some c) st)"
| "select_step (ClickTrip t) st = deck_onClick True (vehicleIcons_onClick (Some t) st)"
| "select_step (ClickStation s) st = deck_onClick True (stationIcons_onClick (Some s) st)"
| "select_step ClickBackground st = deck_onClick False st"
| "select_step ClickClose st = close_onClick st"

text \<open>The number of selections that are not \<open>null\<close>.\<close>

definition selected_count :: "state \<Rightarrow> nat" where
  "selected_count st =
     (if selectedTripId st = None then 0 else 1) +
     (if selectedStationId st = None then 0 else 1) +
     (if selectedCellId st = None then 0 else 1)"


section \<open>The interpolation of the specification\<close>

text \<open>Linear interpolation of longitude and latitude, each on its own, at the fraction
  \<open>(t - t0) / (t1 - t0)\<close> between two points, in the arithmetic of the source.\<close>

definition linear_interpolation :: "TripPoint \<Rightarrow> TripPoint \<Rightarrow> number \<Rightarrow> position" where
  "linear_interpolation p0 p1 t =
     (let fraction = fdiv (fsub t (time p0)) (fsub (time p1) (time p0))
      in Position (fadd (lon p0) (fmul (fsub (lon p1) (lon p0)) fraction))
                  (fadd (lat p0) (fmul (fsub (lat p1) (lat p0)) fraction)))"

text \<open>A path of two points, for the midpoint.\<close>

definition two_point_path :: "TripPoint list" where
  "two_point_path = [\<lparr>lat = 0, lon = 0, time = 0\<rparr>, \<lparr>lat = 20, lon = 10, time = 10\<rparr>]"


section \<open>Notions of the properties\<close>

text \<open>The endpoints of the moves of one deployment; the stations of one fleet, each with
  its fleet and flagged when its id is an endpoint of a move of that same deployment; the
  trips of one fleet, from the responses to its route requests; and the trips that the
  loop over the fleets has pushed when it ends (none when the run is aborted).\<close>

definition move_endpoints :: "Move list \<Rightarrow> string set" where
  "move_endpoints ms = from_station_id ` set ms \<union> to_station_id ` set ms"

definition fleet_stations :: "FleetConfig \<Rightarrow> DeploymentResponse \<Rightarrow> Station list" where
  "fleet_stations c d =
     map (with_fleet (fleetFromBackend c d) (move_endpoints (dr_moves d))) (dr_stations d)"

definition fleet_trips :: "FleetConfig \<Rightarrow> DeploymentResponse \<Rightarrow> RouteEntry option list \<Rightarrow> Trip list" where
  "fleet_trips c d rs = assemble_trips (fleetFromBackend c d) 0 rs"

definition produced_trips :: "backend \<Rightarrow> FleetConfig list \<Rightarrow> Trip list" where
  "produced_trips b configs =
     (case run_fleets b configs of Inl e \<Rightarrow> [] | Inr acc \<Rightarrow> allTrips acc)"


section \<open>Example data\<close>

text \<open>Stations, deployments, backends and configurations at which the properties are
  evaluated.\<close>

definition station_of :: "string \<Rightarrow> number \<Rightarrow> number \<Rightarrow> StationDeployment" where
  "station_of ident la lo =
     \<lparr>lat = la, lon = lo, station_id = ident, vehicles_current = 2,
      vehicles_target = 2, local_risk = 0, station_name = None, name = None\<rparr>"

definition input_of :: "string \<Rightarrow> number \<Rightarrow> number \<Rightarrow> StationInput" where
  "input_of ident la lo = \<lparr>lat = la, lon = lo, station_id = ident, vehicles_current = 2\<rparr>"

definition two_points :: RouteJson where
  "two_points = \<lparr>points = [\<lparr>lat = 1, lon = 1, time = 0\<rparr>, \<lparr>lat = 2, lon = 2, time = 30\<rparr>]\<rparr>"

definition example_route :: "FleetType \<Rightarrow> nat \<Rightarrow> RouteRequest \<Rightarrow> RouteJson response" where
  "example_route f i r = Ok two_points"

definition police_idle :: DeploymentResponse where
  "police_idle =
     \<lparr>dr_fleet_type = Some police, dr_stations = [station_of ''P1'' 3 3], dr_moves = [],
      total_travel_cost = 0\<rparr>"

definition police_moving :: DeploymentResponse where
  "police_moving =
     \<lparr>dr_fleet_type = Some police,
      dr_stations = [station_of ''P1'' 3 3, station_of ''P2'' 4 4],
      dr_moves = [\<lparr>from_station_id = ''P1'', to_station_id = ''P2'', move_fleet_type = police\<rparr>],
      total_travel_cost = 1\<rparr>"

definition police_only_backend :: "DeploymentResponse \<Rightarrow> backend" where
  "police_only_backend d =
     \<lparr>optimize_deployment = (\<lambda>f ss. case f of fire \<Rightarrow> NotOk | police \<Rightarrow> Ok d),
      route = example_route\<rparr>"

definition rejecting_route_backend :: backend where
  "rejecting_route_backend =
     \<lparr>optimize_deployment = (\<lambda>f ss. case f of fire \<Rightarrow> NotOk | police \<Rightarrow> Ok police_moving),
      route = (\<lambda>f i r. Rejected)\<rparr>"

definition fire_config :: FleetConfig where
  "fire_config = \<lparr>cfg_fleet_type = fire, cfg_stations = [input_of ''F1'' 1 1]\<rparr>"

definition police_config :: FleetConfig where
  "police_config =
     \<lparr>cfg_fleet_type = police, cfg_stations = [input_of ''P1'' 3 3, input_of ''P2'' 4 4]\<rparr>"

definition idle_deployment :: "FleetType \<Rightarrow> DeploymentResponse" where
  "idle_deployment f =
     \<lparr>dr_fleet_type = Some f,
      dr_stations = [station_of (case f of fire \<Rightarrow> ''F1'' | police \<Rightarrow> ''P1'') 1 1],
      dr_moves = [], total_travel_cost = 0\<rparr>"

definition idle_backend :: backend where
  "idle_backend =
     \<lparr>optimize_deployment = (\<lambda>f ss. Ok (idle_deployment f)), route = example_route\<rparr>"

definition fire_moving :: DeploymentResponse where
  "fire_moving =
     \<lparr>dr_fleet_type = Some fire,
      dr_stations = [station_of ''S1'' 1 1, station_of ''S2'' 2 2],
      dr_moves = [\<lparr>from_station_id = ''S1'', to_station_id = ''S2'', move_fleet_type = fire\<rparr>],
      total_travel_cost = 1\<rparr>"

definition empty_route_backend :: backend where
  "empty_route_backend =
     \<lparr>optimize_deployment = (\<lambda>f ss. case f of fire \<Rightarrow> Ok fire_moving | police \<Rightarrow> NotOk),
      route = (\<lambda>f i r. Ok \<lparr>points = []\<rparr>)\<rparr>"

definition rejected_deployment_backend :: backend where
  "rejected_deployment_backend =
     \<lparr>optimize_deployment = (\<lambda>f ss. case f of fire \<Rightarrow> Ok fire_moving | police \<Rightarrow> Rejected),
      route = example_route\<rparr>"

definition fs1_input :: StationInput where
  "fs1_input = \<lparr>lat = fl (476 / 10), lon = fl (- 12233 / 100), station_id = ''FS1'',
                vehicles_current = 2\<rparr>"

definition fs1_station :: StationDeployment where
  "fs1_station = \<lparr>lat = fl (476 / 10), lon = fl (- 12233 / 100), station_id = ''FS1'',
                  vehicles_current = 2, vehicles_target = 2, local_risk = 0,
                  station_name = None, name = None\<rparr>"

definition fs1_move :: Move where
  "fs1_move = \<lparr>from_station_id = ''FS1'', to_station_id = ''FS1'', move_fleet_type = fire\<rparr>"

definition fs1_deployment :: "FleetType \<Rightarrow> DeploymentResponse" where
  "fs1_deployment f =
     (case f of
        fire \<Rightarrow> \<lparr>dr_fleet_type = Some fire, dr_stations = [fs1_station],
                  dr_moves = [fs1_move], total_travel_cost = 0\<rparr>
      | police \<Rightarrow> \<lparr>dr_fleet_type = Some police, dr_stations = [], dr_moves = [],
                    total_travel_cost = 0\<rparr>)"

definition fs1_backend :: backend where
  "fs1_backend =
     \<lparr>optimize_deployment = (\<lambda>f ss. Ok (fs1_deployment f)), route = example_route\<rparr>"

definition fs1_configs :: "FleetConfig list" where
  "fs1_configs = fleetConfigs [] [] (Some [fs1_input]) (Some [])"

definition shared_id_deployment :: "FleetType \<Rightarrow> DeploymentResponse" where
  "shared_id_deployment f =
     (case f of
        fire \<Rightarrow>
          \<lparr>dr_fleet_type = Some fire,
           dr_stations = [station_of ''S1'' 1 1, station_of ''S2'' 2 2],
           dr_moves = [\<lparr>from_station_id = ''S1'', to_station_id = ''S2'', move_fleet_type = fire\<rparr>],
           total_travel_cost = 1\<rparr>
      | police \<Rightarrow>
          \<lparr>dr_fleet_type = Some police,
           dr_stations = [station_of ''S1'' 3 3],
           dr_moves = [],
           total_travel_cost = 0\<rparr>)"

definition shared_id_backend :: backend where
  "shared_id_backend =
     \<lparr>optimize_deployment = (\<lambda>f ss. Ok (shared_id_deployment f)), route = example_route\<rparr>"

definition shared_id_configs :: "FleetConfig list" where
  "shared_id_configs =
     fleetConfigs [] [] (Some [input_of ''S1'' 1 1, input_of ''S2'' 2 2]) (Some [input_of ''S1'' 3 3])"

definition loaded_state :: state where
  "loaded_state = initial_state\<lparr>trips := Some SAMPLE_TRIPS\<rparr>"


section \<open>Properties of the rounding\<close>

text \<open>\<open>expo\<close> is the binary exponent; \<open>fl x\<close> is within half a unit in the last place of
  \<open>x\<close>, and is zero only when \<open>x\<close> is.\<close>

lemma expo_lower:
  assumes "x \<noteq> 0"
  shows "2 powi (expo x) \<le> \<bar>x\<bar>"
proof -
  obtain p q where pq: "quotient_of x = (p, q)" by (cases "quotient_of x")
  have q0: "0 < q" using quotient_of_denom_pos[OF pq] .
  have x: "x = of_int p / of_int q" using quotient_of_div[OF pq] .
  have p0: "0 < \<bar>p\<bar>" using assms x by auto
  define e0 where "e0 = bitlen \<bar>p\<bar> - bitlen q"
  have ex: "expo x = (if 2 powi e0 \<le> \<bar>x\<bar> then e0 else e0 - 1)"
    by (simp add: expo_def pq e0_def Let_def)
  show ?thesis
  proof (cases "2 powi e0 \<le> \<bar>x\<bar>")
    case True
    then show ?thesis by (simp add: ex)
  next
    case False
    have bp: "2 ^ nat (bitlen \<bar>p\<bar> - 1) \<le> \<bar>p\<bar>" using bitlen_bounds[OF p0] by simp
    have bq: "q < 2 ^ nat (bitlen q)" using bitlen_bounds[OF q0] by simp
    have bp1: "1 \<le> bitlen \<bar>p\<bar>" using p0 by (simp add: bitlen_def floorlog_def)
    have bq0: "0 \<le> bitlen q" by (rule bitlen_nonneg)
    have rp: "(2::rat) powi (bitlen \<bar>p\<bar> - 1) \<le> of_int \<bar>p\<bar>"
    proof -
      have "(2::rat) powi (bitlen \<bar>p\<bar> - 1) = 2 ^ nat (bitlen \<bar>p\<bar> - 1)"
        using bp1 by (simp add: power_int_def)
      also have "\<dots> = of_int (2 ^ nat (bitlen \<bar>p\<bar> - 1))" by simp
      also have "\<dots> \<le> of_int \<bar>p\<bar>" using bp by (simp only: of_int_le_iff)
      finally show ?thesis .
    qed
    have rq: "of_int q \<le> (2::rat) powi (bitlen q)"
    proof -
      have "(of_int q :: rat) \<le> of_int (2 ^ nat (bitlen q))" using bq by (simp only: of_int_le_iff)
      also have "\<dots> = 2 powi (bitlen q)" using bq0 by (simp add: power_int_def)
      finally show ?thesis .
    qed
    have "(2::rat) powi (e0 - 1) = 2 powi (bitlen \<bar>p\<bar> - 1) / 2 powi (bitlen q)"
      by (simp add: e0_def power_int_diff)
    also have "\<dots> \<le> of_int \<bar>p\<bar> / of_int q"
      using rp rq q0 by (intro frac_le) auto
    also have "\<dots> = \<bar>x\<bar>" using q0 by (simp add: x)
    finally show ?thesis using False by (simp add: ex)
  qed
qed

lemma round_even_nonzero:
  assumes "1 \<le> \<bar>y\<bar>"
  shows "round_even y \<noteq> 0"
proof (cases "0 \<le> y")
  case True
  then have "1 \<le> \<lfloor>y\<rfloor>" using assms by simp
  then have "\<lfloor>y\<rfloor> \<noteq> 0" "\<lfloor>y\<rfloor> + 1 \<noteq> 0" by linarith+
  then show ?thesis unfolding round_even_def Let_def by presburger
next
  case False
  then have y: "y \<le> - 1" using assms by simp
  then have n: "\<lfloor>y\<rfloor> \<le> - 1" by (simp add: floor_le_iff)
  show ?thesis
  proof (cases "\<lfloor>y\<rfloor> = - 1")
    case True
    then have "of_int (- 1) \<le> y" by (metis of_int_floor_le)
    then have "y = of_int \<lfloor>y\<rfloor>" using y True by simp
    then have "y - of_int \<lfloor>y\<rfloor> = 0" by simp
    then show ?thesis using True unfolding round_even_def Let_def by simp
  next
    case False
    then have "\<lfloor>y\<rfloor> \<noteq> 0" "\<lfloor>y\<rfloor> + 1 \<noteq> 0" using n by linarith+
    then show ?thesis unfolding round_even_def Let_def by presburger
  qed
qed

lemma fl_nonzero:
  assumes "x \<noteq> 0"
  shows "fl x \<noteq> 0"
proof -
  define u :: rat where "u = 2 powi (expo x - 52)"
  have u0: "0 < u" by (simp add: u_def)
  have "(2::rat) powi (expo x) = u * 2 ^ 52"
    by (simp add: u_def power_int_diff)
  then have "u * 1 \<le> \<bar>x\<bar>" using expo_lower[OF assms] u0
    by (smt (verit) mult_left_mono one_le_numeral one_le_power order_trans less_imp_le)
  then have "1 \<le> \<bar>x / u\<bar>" using u0 by (simp add: pos_le_divide_eq mult.commute)
  then have "round_even (x / u) \<noteq> 0" by (rule round_even_nonzero)
  then show ?thesis using u0 assms by (simp add: fl_def Let_def u_def[symmetric])
qed

lemma expo_upper:
  assumes "x \<noteq> 0"
  shows "\<bar>x\<bar> < 2 powi (expo x + 1)"
proof -
  obtain p q where pq: "quotient_of x = (p, q)" by (cases "quotient_of x")
  have q0: "0 < q" using quotient_of_denom_pos[OF pq] .
  have x: "x = of_int p / of_int q" using quotient_of_div[OF pq] .
  have p0: "0 < \<bar>p\<bar>" using assms x by auto
  define e0 where "e0 = bitlen \<bar>p\<bar> - bitlen q"
  have ex: "expo x = (if 2 powi e0 \<le> \<bar>x\<bar> then e0 else e0 - 1)"
    by (simp add: expo_def pq e0_def Let_def)
  show ?thesis
  proof (cases "2 powi e0 \<le> \<bar>x\<bar>")
    case False
    then show ?thesis by (simp add: ex)
  next
    case True
    have bp: "\<bar>p\<bar> < 2 ^ nat (bitlen \<bar>p\<bar>)" using bitlen_bounds[OF p0] by simp
    have bq: "2 ^ nat (bitlen q - 1) \<le> q" using bitlen_bounds[OF q0] by simp
    have bq1: "1 \<le> bitlen q" using q0 by (simp add: bitlen_def floorlog_def)
    have bp0: "0 \<le> bitlen \<bar>p\<bar>" by (rule bitlen_nonneg)
    have rp: "of_int \<bar>p\<bar> < (2::rat) powi (bitlen \<bar>p\<bar>)"
    proof -
      have "(of_int \<bar>p\<bar> :: rat) < of_int (2 ^ nat (bitlen \<bar>p\<bar>))"
        using bp by (simp only: of_int_less_iff)
      also have "\<dots> = 2 powi (bitlen \<bar>p\<bar>)" using bp0 by (simp add: power_int_def)
      finally show ?thesis .
    qed
    have rq: "(2::rat) powi (bitlen q - 1) \<le> of_int q"
    proof -
      have "(2::rat) powi (bitlen q - 1) = of_int (2 ^ nat (bitlen q - 1))"
        using bq1 by (simp add: power_int_def)
      also have "\<dots> \<le> of_int q" using bq by (simp only: of_int_le_iff)
      finally show ?thesis .
    qed
    have pos: "(0::rat) < 2 powi (bitlen q - 1)" by simp
    have "\<bar>x\<bar> = of_int \<bar>p\<bar> / of_int q" using q0 by (simp add: x)
    also have "\<dots> < 2 powi (bitlen \<bar>p\<bar>) / 2 powi (bitlen q - 1)"
      using rp rq pos q0 by (intro frac_less) auto
    also have "\<dots> = 2 powi (e0 + 1)"
      by (simp add: e0_def power_int_diff power_int_add)
    finally show ?thesis using True by (simp add: ex)
  qed
qed

lemma round_even_error: "\<bar>of_int (round_even y) - y\<bar> \<le> 1 / 2"
proof -
  define n where "n = \<lfloor>y\<rfloor>"
  define d where "d = y - of_int n"
  have d: "0 \<le> d" "d < 1" unfolding d_def n_def by linarith+
  have y: "y = of_int n + d" by (simp add: d_def)
  have r: "round_even y = (if d < 1 / 2 then n else if 1 / 2 < d then n + 1
      else if even n then n else n + 1)"
    by (simp add: round_even_def Let_def n_def d_def)
  have lo: "of_int n - y = - d" and hi: "of_int (n + 1) - y = 1 - d"
    by (simp_all add: d_def)
  show ?thesis
  proof (cases "d < 1 / 2")
    case True
    then have "round_even y = n" by (simp add: r)
    then show ?thesis using d True lo by simp
  next
    case False
    show ?thesis
    proof (cases "1 / 2 < d")
      case True
      then have "round_even y = n + 1" using False by (simp add: r)
      then show ?thesis using d True hi by simp
    next
      case F2: False
      with False have h: "d = 1 / 2" by simp
      have "round_even y = n \<or> round_even y = n + 1" by (simp add: r)
      then show ?thesis using lo hi h by auto
    qed
  qed
qed

lemma fl_error:
  assumes "x \<noteq> 0"
  shows "\<bar>fl x - x\<bar> \<le> 2 powi (expo x - 53)"
proof -
  define u :: rat where "u = 2 powi (expo x - 52)"
  have u0: "0 < u" by (simp add: u_def)
  have half: "u / 2 = 2 powi (expo x - 53)"
    by (simp add: u_def power_int_diff)
  have "fl x - x = u * (of_int (round_even (x / u)) - x / u)"
    using u0 assms by (simp add: fl_def Let_def u_def[symmetric] algebra_simps)
  then have "\<bar>fl x - x\<bar> = u * \<bar>of_int (round_even (x / u)) - x / u\<bar>"
    using u0 by (simp add: abs_mult)
  also have "\<dots> \<le> u * (1 / 2)"
    using round_even_error[of "x / u"] u0 by (intro mult_left_mono) auto
  finally show ?thesis using half by simp
qed


section \<open>Properties of the position interpolator\<close>

text \<open>
  C10. \<open>interpolatePosition\<close> on the empty path returns the fixed coordinate \<open>[0, 0]\<close>,
  whatever the time: the length check comes before any read of the path.
\<close>

theorem interpolatePosition_empty: "interpolatePosition [] t = Position 0 0"
  by (simp add: interpolatePosition_def)

lemma interpolate_segment_linear:
  assumes "time p0 < time p1"
  shows "interpolate_segment p0 p1 t = linear_interpolation p0 p1 t"
proof -
  have "time p1 - time p0 \<noteq> 0" using assms by simp
  then have "fsub (time p1) (time p0) \<noteq> 0" unfolding fsub_def by (rule fl_nonzero)
  then show ?thesis by (simp add: interpolate_segment_def linear_interpolation_def)
qed

lemma segment_loop_first_bracket:
  assumes "time p0 < t" and "t \<le> time (last (p0 # ps))"
  shows "\<exists>i. Suc i < length (p0 # ps) \<and> time ((p0 # ps) ! i) < t \<and> t \<le> time ((p0 # ps) ! Suc i) \<and>
           (\<forall>j<i. \<not> (time ((p0 # ps) ! j) \<le> t \<and> t \<le> time ((p0 # ps) ! Suc j))) \<and>
           segment_loop (p0 # ps) t =
             Some (interpolate_segment ((p0 # ps) ! i) ((p0 # ps) ! Suc i) t)"
  using assms
proof (induction ps arbitrary: p0)
  case Nil
  then show ?case by simp
next
  case (Cons p1 qs)
  show ?case
  proof (cases "t \<le> time p1")
    case True
    with Cons.prems have "Suc 0 < length (p0 # p1 # qs) \<and> time ((p0 # p1 # qs) ! 0) < t \<and>
        t \<le> time ((p0 # p1 # qs) ! Suc 0) \<and>
        (\<forall>j<0. \<not> (time ((p0 # p1 # qs) ! j) \<le> t \<and> t \<le> time ((p0 # p1 # qs) ! Suc j))) \<and>
        segment_loop (p0 # p1 # qs) t =
          Some (interpolate_segment ((p0 # p1 # qs) ! 0) ((p0 # p1 # qs) ! Suc 0) t)"
      by simp
    then show ?thesis by blast
  next
    case False
    then have lt: "time p1 < t" by simp
    from Cons.prems have "t \<le> time (last (p1 # qs))" by simp
    from Cons.IH[OF lt this] obtain i where i:
      "Suc i < length (p1 # qs)" "time ((p1 # qs) ! i) < t" "t \<le> time ((p1 # qs) ! Suc i)"
      "\<forall>j<i. \<not> (time ((p1 # qs) ! j) \<le> t \<and> t \<le> time ((p1 # qs) ! Suc j))"
      "segment_loop (p1 # qs) t = Some (interpolate_segment ((p1 # qs) ! i) ((p1 # qs) ! Suc i) t)"
      by blast
    have all: "\<forall>j<Suc i. \<not> (time ((p0 # p1 # qs) ! j) \<le> t \<and> t \<le> time ((p0 # p1 # qs) ! Suc j))"
    proof (intro allI impI)
      fix j assume "j < Suc i"
      show "\<not> (time ((p0 # p1 # qs) ! j) \<le> t \<and> t \<le> time ((p0 # p1 # qs) ! Suc j))"
      proof (cases j)
        case 0
        then show ?thesis using False by simp
      next
        case (Suc k)
        then have "k < i" using \<open>j < Suc i\<close> by simp
        then show ?thesis using i(4) Suc by simp
      qed
    qed
    have "Suc (Suc i) < length (p0 # p1 # qs) \<and> time ((p0 # p1 # qs) ! Suc i) < t \<and>
        t \<le> time ((p0 # p1 # qs) ! Suc (Suc i)) \<and>
        segment_loop (p0 # p1 # qs) t =
          Some (interpolate_segment ((p0 # p1 # qs) ! Suc i) ((p0 # p1 # qs) ! Suc (Suc i)) t)"
      using i False by simp
    with all show ?thesis by blast
  qed
qed

lemma sorted_times_hd_last:
  assumes "sorted_wrt (<) (map time pts)" and "2 \<le> length pts"
  shows "time (hd pts) < time (last pts)"
proof -
  have n: "0 < length pts - 1" "length pts - 1 < length (map time pts)"
    using assms(2) by simp_all
  have "map time pts ! 0 < map time pts ! (length pts - 1)"
    using sorted_wrt_nth_less[OF assms(1) n] .
  moreover have "pts \<noteq> []" using assms(2) by auto
  ultimately show ?thesis using n
    by (simp add: last_conv_nth hd_conv_nth)
qed

text \<open>
  C8. For a path that is not empty and whose times increase strictly, and every time \<open>t\<close>:
  at or before the first time the result is the first point, at or after the last time it
  is the last point, and strictly between them it is the linear interpolation, at the
  fraction \<open>(t - t0) / (t1 - t0)\<close>, within the first pair of consecutive points whose
  times bracket \<open>t\<close> (such a pair exists, and the loop never falls through or divides by
  zero).  A path of one point gives that point at every time.
\<close>

theorem interpolatePosition_policy:
  assumes "pts \<noteq> []" and "sorted_wrt (<) (map time pts)"
  shows "(t \<le> time (hd pts) \<longrightarrow>
            interpolatePosition pts t = Position (lon (hd pts)) (lat (hd pts))) \<and>
         (time (last pts) \<le> t \<longrightarrow>
            interpolatePosition pts t = Position (lon (last pts)) (lat (last pts))) \<and>
         (time (hd pts) < t \<and> t < time (last pts) \<longrightarrow>
            (\<exists>i. Suc i < length pts \<and> time (pts ! i) \<le> t \<and> t \<le> time (pts ! Suc i) \<and>
                 (\<forall>j<i. \<not> (time (pts ! j) \<le> t \<and> t \<le> time (pts ! Suc j))) \<and>
                 interpolatePosition pts t = linear_interpolation (pts ! i) (pts ! Suc i) t)) \<and>
         (length pts = 1 \<longrightarrow>
            (\<forall>t'. interpolatePosition pts t' = Position (lon (hd pts)) (lat (hd pts))))"
proof (intro conjI impI)
  assume "t \<le> time (hd pts)"
  then show "interpolatePosition pts t = Position (lon (hd pts)) (lat (hd pts))"
    using assms(1) by (simp add: interpolatePosition_def hd_conv_nth)
next
  assume le: "time (last pts) \<le> t"
  show "interpolatePosition pts t = Position (lon (last pts)) (lat (last pts))"
  proof (cases "2 \<le> length pts")
    case True
    then have "time (hd pts) < t" using sorted_times_hd_last[OF assms(2)] le by simp
    then show ?thesis using assms(1) le
      by (simp add: interpolatePosition_def hd_conv_nth last_conv_nth)
  next
    case False
    then obtain p where "pts = [p]" using assms(1)
      by (cases pts) (auto simp: Suc_le_eq)
    then show ?thesis by (simp add: interpolatePosition_def)
  qed
next
  assume t: "time (hd pts) < t \<and> t < time (last pts)"
  obtain p0 ps where pts: "pts = p0 # ps" using assms(1) by (cases pts) auto
  from t have "time p0 < t" "t \<le> time (last (p0 # ps))" by (simp_all add: pts)
  from segment_loop_first_bracket[OF this] obtain i where i:
    "Suc i < length pts" "time (pts ! i) < t" "t \<le> time (pts ! Suc i)"
    "\<forall>j<i. \<not> (time (pts ! j) \<le> t \<and> t \<le> time (pts ! Suc j))"
    "segment_loop pts t = Some (interpolate_segment (pts ! i) (pts ! Suc i) t)"
    unfolding pts by blast
  have "time (pts ! i) < time (pts ! Suc i)" using i(2,3) by simp
  then have seg: "interpolate_segment (pts ! i) (pts ! Suc i) t =
      linear_interpolation (pts ! i) (pts ! Suc i) t"
    by (rule interpolate_segment_linear)
  have "interpolatePosition pts t = linear_interpolation (pts ! i) (pts ! Suc i) t"
    using t assms(1) i(5) seg
    by (simp add: interpolatePosition_def hd_conv_nth last_conv_nth)
  with i show "\<exists>i. Suc i < length pts \<and> time (pts ! i) \<le> t \<and> t \<le> time (pts ! Suc i) \<and>
                 (\<forall>j<i. \<not> (time (pts ! j) \<le> t \<and> t \<le> time (pts ! Suc j))) \<and>
                 interpolatePosition pts t = linear_interpolation (pts ! i) (pts ! Suc i) t"
    by (intro exI[of _ i]) simp
next
  assume "length pts = 1"
  then obtain p where "pts = [p]" by (cases pts) auto
  then show "\<forall>t'. interpolatePosition pts t' = Position (lon (hd pts)) (lat (hd pts))"
    by (simp add: interpolatePosition_def)
qed

text \<open>The policy at the path \<open>[(0, 0, 0), (10, 10, 20)]\<close> (time, longitude, latitude):
  the first point at time 0, the last at time 10, the midpoint \<open>(5, 10)\<close> at time 5.\<close>

theorem interpolatePosition_policy_witness:
  "two_point_path \<noteq> [] \<and> sorted_wrt (<) (map time two_point_path) \<and>
   interpolatePosition two_point_path 0 = Position 0 0 \<and>
   interpolatePosition two_point_path 10 = Position 10 20 \<and>
   interpolatePosition two_point_path 5 =
     linear_interpolation (two_point_path ! 0) (two_point_path ! 1) 5 \<and>
   linear_interpolation (two_point_path ! 0) (two_point_path ! 1) 5 = Position 5 10"
proof -
  have ne: "two_point_path \<noteq> []" by (simp add: two_point_path_def)
  have inc: "sorted_wrt (<) (map time two_point_path)" by (simp add: two_point_path_def)
  have first: "interpolatePosition two_point_path 0 = Position 0 0"
    using interpolatePosition_policy[OF ne inc, of 0] by (simp add: two_point_path_def)
  have last: "interpolatePosition two_point_path 10 = Position 10 20"
    using interpolatePosition_policy[OF ne inc, of 10] by (simp add: two_point_path_def)
  have "time (hd two_point_path) < 5 \<and> 5 < time (last two_point_path)"
    by (simp add: two_point_path_def)
  with interpolatePosition_policy[OF ne inc, of 5] obtain i where
    i: "Suc i < length two_point_path"
      "interpolatePosition two_point_path 5 =
         linear_interpolation (two_point_path ! i) (two_point_path ! Suc i) 5"
    by blast
  from i(1) have "i = 0" by (simp add: two_point_path_def)
  with i(2) have mid: "interpolatePosition two_point_path 5 =
      linear_interpolation (two_point_path ! 0) (two_point_path ! 1) 5"
    by simp
  have val: "linear_interpolation (two_point_path ! 0) (two_point_path ! 1) 5 = Position 5 10"
    by code_simp
  from ne inc first last mid val show ?thesis by blast
qed


section \<open>Properties of the spatial grid indexer\<close>

text \<open>An id that \<open>latLonToCellId\<close> returns lies in \<open>[0, nLat * nLon)\<close>.\<close>

lemma latLonToCellId_range:
  assumes "latLonToCellId la lo = Some c"
  shows "0 \<le> c \<and> c < nLat * nLon"
proof -
  define i where "i = \<lfloor>fdiv (fsub la GRID_MIN_LAT) GRID_LAT_STEP\<rfloor>"
  define j where "j = \<lfloor>fdiv (fsub lo GRID_MIN_LON) GRID_LON_STEP\<rfloor>"
  from assms have b: "0 \<le> i" "0 \<le> j" "i < nLat" "j < nLon" and c: "c = i * nLon + j"
    by (auto simp: latLonToCellId_def Let_def i_def j_def split: if_splits)
  have "0 \<le> i * nLon" using b by simp
  then have "0 \<le> c" using b c by simp
  have "i + 1 \<le> nLat" using b by simp
  then have "(i + 1) * nLon \<le> nLat * nLon" using b by (intro mult_right_mono) auto
  then have "c < nLat * nLon" using b c by (simp add: algebra_simps)
  with \<open>0 \<le> c\<close> show ?thesis by simp
qed

text \<open>
  C9, at an input where the code departs from it.  In double arithmetic
  \<open>(47.75 - 47.48) / 0.01\<close> is just above 27 and \<open>(-122.22 + 122.45) / 0.01\<close> just above
  23, so that the code counts 28 rows and 24 columns.  The point \<open>(47.755, -122.3)\<close> lies
  north of the grid (its latitude exceeds \<open>GRID_MAX_LAT\<close>), yet the code returns the cell
  id \<open>27 * 24 + 15 = 663\<close> for it, not \<open>null\<close>.
\<close>

theorem latLonToCellId_beyond_max_lat:
  "nLat = 28 \<and> nLon = 24 \<and>
   GRID_MAX_LAT < fl (47755 / 1000) \<and>
   GRID_MIN_LON < fl (- 1223 / 10) \<and> fl (- 1223 / 10) < GRID_MAX_LON \<and>
   latLonToCellId (fl (47755 / 1000)) (fl (- 1223 / 10)) = Some 663"
  by code_simp


section \<open>Properties of the selection\<close>

lemma select_step_count: "selected_count (select_step e st) \<le> 1"
  by (cases e)
    (simp_all add: selected_count_def deck_onClick_def heatmap_onClick_def
      vehicleIcons_onClick_def stationIcons_onClick_def close_onClick_def)

lemma selected_count_initial: "selected_count initial_state = 0"
  by (simp add: selected_count_def initial_state_def)

lemma fold_select_count:
  "selected_count st \<le> 1 \<Longrightarrow> selected_count (fold select_step es st) \<le> 1"
proof (induction es arbitrary: st)
  case Nil
  then show ?case by simp
next
  case (Cons e es)
  show ?case using Cons.IH[OF select_step_count[of e st]] by simp
qed

text \<open>
  C6. After any sequence of clicks from the initial state at most one of
  \<open>selectedTripId\<close>, \<open>selectedStationId\<close>, \<open>selectedCellId\<close> is set; a click on a trip, a
  station or a cell then leaves that one selected and the other two cleared, and a click
  on the background (or on the close button) clears all three.
\<close>

theorem selection_mutually_exclusive:
  "selected_count (fold select_step es initial_state) \<le> 1 \<and>
   (let st = fold select_step es initial_state; st' = select_step e st in
    selected_count st' \<le> 1 \<and>
    (case e of
       ClickTrip t \<Rightarrow>
         selectedTripId st' = Some (id' t) \<and> selectedStationId st' = None \<and>
         selectedCellId st' = None
     | ClickStation s \<Rightarrow>
         selectedStationId st' = Some (station_id s) \<and> selectedTripId st' = None \<and>
         selectedCellId st' = None
     | ClickCell c \<Rightarrow>
         selectedCellId st' = Some (cellId c) \<and> selectedTripId st' = None \<and>
         selectedStationId st' = None
     | ClickBackground \<Rightarrow>
         selectedTripId st' = None \<and> selectedStationId st' = None \<and> selectedCellId st' = None
     | ClickClose \<Rightarrow>
         selectedTripId st' = None \<and> selectedStationId st' = None \<and> selectedCellId st' = None))"
proof -
  have a: "selected_count (fold select_step es initial_state) \<le> 1"
    by (rule fold_select_count) (simp add: selected_count_initial)
  have b: "selected_count (select_step e (fold select_step es initial_state)) \<le> 1"
    by (rule select_step_count)
  show ?thesis using a b
    by (cases e)
      (simp_all add: Let_def deck_onClick_def heatmap_onClick_def
        vehicleIcons_onClick_def stationIcons_onClick_def close_onClick_def)
qed


section \<open>Properties of the playback clock\<close>

lemma fold_max_Max: "fold max xs (x::rat) = Max (set (x # xs))"
proof (induction xs arbitrary: x)
  case Nil
  then show ?case by simp
next
  case (Cons y ys)
  have "fold max (y # ys) x = fold max ys (max y x)" by simp
  also have "\<dots> = Max (set (max y x # ys))" by (rule Cons.IH)
  also have "\<dots> = Max (set (x # y # ys))"
  proof (cases "set ys = {}")
    case True
    then show ?thesis by (simp add: max.commute)
  next
    case False
    then show ?thesis by (simp add: max.commute max.assoc max.left_commute)
  qed
  finally show ?case .
qed

lemma maxTime_Max:
  "ts \<noteq> [] \<Longrightarrow> maxTime (Some ts) = Max (set (map terminal_time ts))"
  by (cases ts) (simp_all add: maxTime_def fold_max_Max del: fold_simps)

lemma tick_update_bound:
  assumes "0 < maxT"
  shows "tick_update maxT speed prev < maxT"
  using assms by (simp add: tick_update_def Let_def)

lemma clock_step_bound:
  assumes "0 < maxTime (trips st)" and "currentTime st \<le> maxTime (trips st)"
    and "seek_within (maxTime (trips st)) e"
  shows "currentTime (clock_step e st) \<le> maxTime (trips st) \<and> trips (clock_step e st) = trips st"
proof (cases e)
  case Tick
  then show ?thesis using assms tick_update_bound[OF assms(1), of "playbackSpeed st" "currentTime st"]
    by (simp add: tick_def)
next
  case TogglePlaying
  then show ?thesis using assms by simp
next
  case (SetPlaybackSpeed v)
  then show ?thesis using assms by simp
next
  case (Seek v)
  then show ?thesis using assms by (simp add: seek_within_def)
qed

lemma clock_run_bound:
  assumes "0 < maxTime (trips st)" and "currentTime st \<le> maxTime (trips st)"
    and "list_all (seek_within (maxTime (trips st))) es"
  shows "currentTime (fold clock_step es st) \<le> maxTime (trips st) \<and>
         trips (fold clock_step es st) = trips st"
  using assms
proof (induction es arbitrary: st)
  case Nil
  then show ?case by simp
next
  case (Cons e es)
  from Cons.prems have e: "seek_within (maxTime (trips st)) e"
    and es: "list_all (seek_within (maxTime (trips st))) es" by simp_all
  from clock_step_bound[OF Cons.prems(1,2) e]
  have s: "currentTime (clock_step e st) \<le> maxTime (trips st)"
    "trips (clock_step e st) = trips st" by simp_all
  have "currentTime (fold clock_step es (clock_step e st)) \<le> maxTime (trips (clock_step e st)) \<and>
        trips (fold clock_step es (clock_step e st)) = trips (clock_step e st)"
    by (rule Cons.IH) (use s Cons.prems(1) es in simp_all)
  then show ?case using s by simp
qed

text \<open>
  C7. While playing with \<open>maxTime > 0\<close>, a tick replaces the time by \<open>time + speed\<close> when
  that sum is below \<open>maxTime\<close> and by \<open>0\<close> otherwise, so its result never exceeds
  \<open>maxTime\<close>; nor does the time after any sequence of ticks, speed changes, pauses and
  seeks within \<open>maxTime\<close>, from a time within \<open>maxTime\<close>.  \<open>maxTime\<close> is the maximum of the
  terminal times of the trips (the time of the last point of a path that is not empty);
  without trips it is \<open>0\<close>, and a tick then leaves the state as it is.
\<close>

theorem playback_clock:
  "(playing st \<and> 0 < maxTime (trips st) \<longrightarrow>
      currentTime (tick st) =
        (if fadd (currentTime st) (playbackSpeed st) < maxTime (trips st)
         then fadd (currentTime st) (playbackSpeed st) else 0) \<and>
      currentTime (tick st) \<le> maxTime (trips st)) \<and>
   (0 < maxTime (trips st) \<and> currentTime st \<le> maxTime (trips st) \<and>
    list_all (seek_within (maxTime (trips st))) es \<longrightarrow>
      currentTime (fold clock_step es st) \<le> maxTime (trips st)) \<and>
   (\<forall>ts. ts \<noteq> [] \<longrightarrow> maxTime (Some ts) = Max (set (map terminal_time ts))) \<and>
   (\<forall>t. path t \<noteq> [] \<longrightarrow> terminal_time t = time (last (path t))) \<and>
   maxTime (Some []) = 0 \<and> maxTime None = 0 \<and>
   (maxTime (trips st) = 0 \<longrightarrow> tick st = st)"
proof (intro conjI impI allI)
  assume a: "playing st \<and> 0 < maxTime (trips st)"
  then show "currentTime (tick st) =
        (if fadd (currentTime st) (playbackSpeed st) < maxTime (trips st)
         then fadd (currentTime st) (playbackSpeed st) else 0)"
    by (simp add: tick_def interval_installed_def tick_update_def Let_def)
  from a show "currentTime (tick st) \<le> maxTime (trips st)"
    using tick_update_bound[of "maxTime (trips st)" "playbackSpeed st" "currentTime st"]
    by (simp add: tick_def interval_installed_def)
next
  assume "0 < maxTime (trips st) \<and> currentTime st \<le> maxTime (trips st) \<and>
    list_all (seek_within (maxTime (trips st))) es"
  then show "currentTime (fold clock_step es st) \<le> maxTime (trips st)"
    using clock_run_bound[of st es] by simp
next
  fix ts :: "Trip list" assume "ts \<noteq> []"
  then show "maxTime (Some ts) = Max (set (map terminal_time ts))" by (rule maxTime_Max)
next
  fix t :: Trip assume "path t \<noteq> []"
  then show "terminal_time t = time (last (path t))"
    by (simp add: terminal_time_def last_conv_nth)
next
  show "maxTime (Some []) = 0" by (simp add: maxTime_def)
  show "maxTime None = 0" by (simp add: maxTime_def)
next
  assume "maxTime (trips st) = 0"
  then show "tick st = st" by (simp add: tick_def interval_installed_def)
qed

lemma maxTime_loaded: "maxTime (trips loaded_state) = 180"
  by (simp add: loaded_state_def maxTime_def SAMPLE_TRIPS_def terminal_time_def)

text \<open>C7 after a load that ended with the fallback trip (\<open>maxTime = 180\<close>): a tick from 0
  gives 1, a tick from 179 wraps to 0, a run with a seek to 178 stays within 180; and
  before the first load (\<open>maxTime = 0\<close>) a tick changes nothing.\<close>

theorem playback_clock_witness:
  "playing loaded_state \<and> maxTime (trips loaded_state) = 180 \<and>
   currentTime (tick loaded_state) = 1 \<and>
   currentTime (tick (loaded_state\<lparr>currentTime := 179\<rparr>)) = 0 \<and>
   list_all (seek_within 180) [Tick, SetPlaybackSpeed 4, Tick, Seek 178, TogglePlaying, Tick] \<and>
   currentTime (fold clock_step [Tick, SetPlaybackSpeed 4, Tick, Seek 178, TogglePlaying, Tick]
     loaded_state) \<le> 180 \<and>
   SAMPLE_TRIPS \<noteq> [] \<and> Max (set (map terminal_time SAMPLE_TRIPS)) = 180 \<and>
   path (hd SAMPLE_TRIPS) \<noteq> [] \<and> terminal_time (hd SAMPLE_TRIPS) = 180 \<and>
   maxTime (trips initial_state) = 0 \<and> tick initial_state = initial_state"
proof -
  let ?es = "[Tick, SetPlaybackSpeed 4, Tick, Seek 178, TogglePlaying, Tick]"
  have pl: "playing loaded_state" by (simp add: loaded_state_def initial_state_def)
  have mx: "maxTime (trips loaded_state) = 180" by (rule maxTime_loaded)
  have f1: "fadd 0 1 = 1" "fadd 179 1 = 180" by code_simp+
  have c0: "currentTime loaded_state = 0" "playbackSpeed loaded_state = 1"
    by (simp_all add: loaded_state_def initial_state_def)
  have t1: "currentTime (tick loaded_state) = 1"
    using playback_clock[of loaded_state "[]"] pl mx by (simp add: c0 f1)
  let ?s = "loaded_state\<lparr>currentTime := 179\<rparr>"
  have t2: "currentTime (tick ?s) = 0"
    using playback_clock[of ?s "[]"] pl mx by (simp add: c0 f1)
  have la: "list_all (seek_within 180) ?es" by (simp add: seek_within_def)
  have run: "currentTime (fold clock_step ?es loaded_state) \<le> 180"
    using playback_clock[of loaded_state ?es] mx la c0 by simp
  have ne: "SAMPLE_TRIPS \<noteq> []" by (simp add: SAMPLE_TRIPS_def)
  have mxs: "Max (set (map terminal_time SAMPLE_TRIPS)) = 180"
    using playback_clock[of loaded_state "[]"] ne mx by (simp add: loaded_state_def)
  have pne: "path (hd SAMPLE_TRIPS) \<noteq> []" by (simp add: SAMPLE_TRIPS_def)
  have tt: "terminal_time (hd SAMPLE_TRIPS) = 180"
    using playback_clock[of loaded_state "[]"] pne by (simp add: SAMPLE_TRIPS_def)
  have m0: "maxTime (trips initial_state) = 0" by (simp add: initial_state_def maxTime_def)
  have t0: "tick initial_state = initial_state"
    using playback_clock[of initial_state "[]"] m0 by simp
  from pl mx t1 t2 la run ne mxs pne tt m0 t0 show ?thesis by simp
qed


section \<open>Properties of the orchestrator\<close>

lemmas example_defs =
  example_route_def police_idle_def police_moving_def police_only_backend_def
  fire_config_def police_config_def station_of_def input_of_def two_points_def

lemmas run_defs =
  fetchAll_def run_fleets_def process_fleet_def no_accumulators_def
  routeResponses_def route_callback_def stationById_def
  add_move_endpoints_def with_fleet_def fleetFromBackend_def enumerate_eq_zip
  StationDeployment.defs Station.defs StationInput.defs LatLon.defs
  fleet_trips_def fleet_stations_def move_endpoints_def produced_trips_def
  baseTrip_def fleet_string_def display_name_def initial_state_def

lemmas fs1_defs = fs1_input_def fs1_station_def fs1_move_def fs1_deployment_def fs1_backend_def
  fs1_configs_def fleetConfigs_def

lemma add_move_endpoints_eq: "add_move_endpoints ms A = A \<union> move_endpoints ms"
proof -
  have "fold (\<lambda>m a. insert (to_station_id m) (insert (from_station_id m) a)) ms A =
        A \<union> (from_station_id ` set ms \<union> to_station_id ` set ms)"
    by (induction ms arbitrary: A) auto
  then show ?thesis by (simp add: add_move_endpoints_def move_endpoints_def)
qed

lemma with_fleet_sel:
  "station_id (with_fleet f A s) = station_id s"
  "fleet_type (with_fleet f A s) = f"
  "inMove (with_fleet f A s) = (station_id s \<in> A)"
  "lat (with_fleet f A s) = lat s"
  "lon (with_fleet f A s) = lon s"
  by (simp_all add: with_fleet_def StationDeployment.defs Station.defs)

lemma process_fleet_NotOk:
  "optimize_deployment b (cfg_fleet_type c) (cfg_stations c) = NotOk \<Longrightarrow>
   process_fleet b acc c = Inr acc"
  by (simp add: process_fleet_def)

lemma process_fleet_Rejected:
  "optimize_deployment b (cfg_fleet_type c) (cfg_stations c) = Rejected \<Longrightarrow>
   process_fleet b acc c = Inl Thrown"
  by (simp add: process_fleet_def)

lemma process_fleet_Ok:
  assumes "optimize_deployment b (cfg_fleet_type c) (cfg_stations c) = Ok d"
  shows "process_fleet b acc c =
     (case routeResponses b (cfg_fleet_type c) d of
        Inl e \<Rightarrow> Inl e
      | Inr rs \<Rightarrow>
          Inr \<lparr>allStations = allStations acc @
                  map (with_fleet (fleetFromBackend c d)
                         (activeStationIds acc \<union> move_endpoints (dr_moves d))) (dr_stations d),
               allTrips = allTrips acc @ fleet_trips c d rs,
               activeStationIds = activeStationIds acc \<union> move_endpoints (dr_moves d)\<rparr>)"
  using assms
  by (simp add: process_fleet_def Let_def add_move_endpoints_eq fleet_trips_def
      split: sum.splits)

lemma process_fleet_first_Ok:
  assumes "optimize_deployment b (cfg_fleet_type c) (cfg_stations c) = Ok d"
  shows "process_fleet b no_accumulators c =
     (case routeResponses b (cfg_fleet_type c) d of
        Inl e \<Rightarrow> Inl e
      | Inr rs \<Rightarrow>
          Inr \<lparr>allStations = fleet_stations c d,
               allTrips = fleet_trips c d rs,
               activeStationIds = move_endpoints (dr_moves d)\<rparr>)"
  by (simp add: process_fleet_Ok[OF assms] no_accumulators_def fleet_stations_def
      split: sum.splits)

text \<open>
  C1, as amended. When the deployment request of one fleet fails and that of the other
  fleet succeeds, the failing fleet contributes nothing.  When the failure is a response
  that is not \<open>ok\<close>, and no route request of the succeeding fleet is rejected, the
  stations are exactly those of the succeeding fleet, flagged by its own moves, and the
  trips are exactly its trips when it has one, and the fallback trip when it has none.
  When a request of the run is rejected (the deployment request of the failing fleet, or
  a route request of the succeeding fleet) the \<open>catch\<close> aborts the run: no stations, and
  the fallback trip.
\<close>

theorem one_fleet_fails:
  assumes "(optimize_deployment b (cfg_fleet_type c1) (cfg_stations c1) = NotOk \<or>
            optimize_deployment b (cfg_fleet_type c1) (cfg_stations c1) = Rejected) \<and>
           optimize_deployment b (cfg_fleet_type c2) (cfg_stations c2) = Ok d \<and>
           cf = c1 \<and> c = c2
         \<or> optimize_deployment b (cfg_fleet_type c1) (cfg_stations c1) = Ok d \<and>
           (optimize_deployment b (cfg_fleet_type c2) (cfg_stations c2) = NotOk \<or>
            optimize_deployment b (cfg_fleet_type c2) (cfg_stations c2) = Rejected) \<and>
           cf = c2 \<and> c = c1"
  shows "if optimize_deployment b (cfg_fleet_type cf) (cfg_stations cf) = Rejected
         then stations (fetchAll b [c1, c2] st) = [] \<and>
              trips (fetchAll b [c1, c2] st) = Some SAMPLE_TRIPS
         else case routeResponses b (cfg_fleet_type c) d of
           Inl e \<Rightarrow>
             stations (fetchAll b [c1, c2] st) = [] \<and>
             trips (fetchAll b [c1, c2] st) = Some SAMPLE_TRIPS
         | Inr rs \<Rightarrow>
             stations (fetchAll b [c1, c2] st) = fleet_stations c d \<and>
             trips (fetchAll b [c1, c2] st) =
               Some (if fleet_trips c d rs = [] then SAMPLE_TRIPS else fleet_trips c d rs)"
  using assms
proof (elim disjE conjE)
  assume a: "optimize_deployment b (cfg_fleet_type c1) (cfg_stations c1) = NotOk"
    "optimize_deployment b (cfg_fleet_type c2) (cfg_stations c2) = Ok d" "cf = c1" "c = c2"
  have "run_fleets b [c1, c2] =
     (case process_fleet b no_accumulators c2 of Inl e \<Rightarrow> Inl e | Inr acc' \<Rightarrow> Inr acc')"
    by (simp add: run_fleets_def process_fleet_NotOk[OF a(1)] split: sum.splits)
  then show ?thesis unfolding a(3,4)
    by (simp add: a(1) fetchAll_def process_fleet_first_Ok[OF a(2)] split: sum.splits)
next
  assume a: "optimize_deployment b (cfg_fleet_type c1) (cfg_stations c1) = Rejected"
    "optimize_deployment b (cfg_fleet_type c2) (cfg_stations c2) = Ok d" "cf = c1" "c = c2"
  have "run_fleets b [c1, c2] = Inl Thrown"
    by (simp add: run_fleets_def process_fleet_Rejected[OF a(1)])
  then show ?thesis unfolding a(3,4) by (simp add: a(1) fetchAll_def)
next
  assume a: "optimize_deployment b (cfg_fleet_type c1) (cfg_stations c1) = Ok d"
    "optimize_deployment b (cfg_fleet_type c2) (cfg_stations c2) = NotOk" "cf = c2" "c = c1"
  have "run_fleets b [c1, c2] =
     (case process_fleet b no_accumulators c1 of Inl e \<Rightarrow> Inl e | Inr acc' \<Rightarrow> Inr acc')"
    by (simp add: run_fleets_def process_fleet_NotOk[OF a(2)] split: sum.splits)
  then show ?thesis unfolding a(3,4)
    by (simp add: a(2) fetchAll_def process_fleet_first_Ok[OF a(1)] split: sum.splits)
next
  assume a: "optimize_deployment b (cfg_fleet_type c1) (cfg_stations c1) = Ok d"
    "optimize_deployment b (cfg_fleet_type c2) (cfg_stations c2) = Rejected" "cf = c2" "c = c1"
  have "\<exists>e. run_fleets b [c1, c2] = Inl e"
    by (simp add: run_fleets_def process_fleet_Rejected[OF a(2)] split: sum.splits)
  then show ?thesis unfolding a(3,4) by (auto simp: a(2) fetchAll_def)
qed

text \<open>C1 as stated fails when the succeeding fleet has no trip: the fire request is not
  \<open>ok\<close>, the police deployment has one station and no move; the trip list is the fallback
  trip, not the (empty) list of the trips of the police fleet.  It fails too when a route
  request of the succeeding fleet is rejected (the police deployment has two stations, and
  the station list is empty), and when the deployment request of the failing fleet is
  rejected after the other fleet was processed (the fire deployment has two stations, and
  the station list is empty).\<close>

theorem one_fleet_fails_counterexample:
  "(optimize_deployment (police_only_backend police_idle) (cfg_fleet_type fire_config)
      (cfg_stations fire_config) = NotOk \<and>
    optimize_deployment (police_only_backend police_idle) (cfg_fleet_type police_config)
      (cfg_stations police_config) = Ok police_idle \<and>
    routeResponses (police_only_backend police_idle) (cfg_fleet_type police_config) police_idle =
      Inr [] \<and>
    fleet_trips police_config police_idle [] = [] \<and>
    trips (fetchAll (police_only_backend police_idle) [fire_config, police_config] initial_state) =
      Some SAMPLE_TRIPS \<and>
    trips (fetchAll (police_only_backend police_idle) [fire_config, police_config] initial_state) \<noteq>
      Some (fleet_trips police_config police_idle [])) \<and>
   (optimize_deployment rejecting_route_backend (cfg_fleet_type fire_config)
      (cfg_stations fire_config) = NotOk \<and>
    optimize_deployment rejecting_route_backend (cfg_fleet_type police_config)
      (cfg_stations police_config) = Ok police_moving \<and>
    map station_id (fleet_stations police_config police_moving) = [''P1'', ''P2''] \<and>
    stations (fetchAll rejecting_route_backend [fire_config, police_config] initial_state) = [] \<and>
    trips (fetchAll rejecting_route_backend [fire_config, police_config] initial_state) =
      Some SAMPLE_TRIPS) \<and>
   (optimize_deployment rejected_deployment_backend (cfg_fleet_type fire_config)
      (cfg_stations fire_config) = Ok fire_moving \<and>
    optimize_deployment rejected_deployment_backend (cfg_fleet_type police_config)
      (cfg_stations police_config) = Rejected \<and>
    map station_id (fleet_stations fire_config fire_moving) = [''S1'', ''S2''] \<and>
    stations (fetchAll rejected_deployment_backend [fire_config, police_config] initial_state) = [] \<and>
    trips (fetchAll rejected_deployment_backend [fire_config, police_config] initial_state) =
      Some SAMPLE_TRIPS)"
  by (simp add: rejecting_route_backend_def rejected_deployment_backend_def fire_moving_def
      example_defs run_defs)
     (simp add: SAMPLE_TRIPS_def)

text \<open>The amended C1 where the fire request is not \<open>ok\<close> and the police deployment has two
  stations and one move between them, where the police request is not \<open>ok\<close> and the fire
  deployment has two stations and one move between them, and where the police request is
  rejected after the fire fleet was processed; the routes succeed.\<close>

theorem one_fleet_fails_witness:
  "(optimize_deployment (police_only_backend police_moving) (cfg_fleet_type fire_config)
     (cfg_stations fire_config) = NotOk \<and>
   optimize_deployment (police_only_backend police_moving) (cfg_fleet_type police_config)
     (cfg_stations police_config) = Ok police_moving \<and>
   map (\<lambda>s. (station_id s, fleet_type s, inMove s))
     (stations (fetchAll (police_only_backend police_moving) [fire_config, police_config]
        initial_state)) =
     [(''P1'', police, True), (''P2'', police, True)] \<and>
   map_option (map id')
     (trips (fetchAll (police_only_backend police_moving) [fire_config, police_config]
        initial_state)) =
     Some [''police_P1_P2_0'']) \<and>
   (optimize_deployment empty_route_backend (cfg_fleet_type fire_config)
     (cfg_stations fire_config) = Ok fire_moving \<and>
   optimize_deployment empty_route_backend (cfg_fleet_type police_config)
     (cfg_stations police_config) = NotOk \<and>
   map (\<lambda>s. (station_id s, fleet_type s, inMove s))
     (stations (fetchAll empty_route_backend [fire_config, police_config] initial_state)) =
     [(''S1'', fire, True), (''S2'', fire, True)] \<and>
   map_option (map id')
     (trips (fetchAll empty_route_backend [fire_config, police_config] initial_state)) =
     Some [''fire_S1_S2_0'']) \<and>
   (optimize_deployment rejected_deployment_backend (cfg_fleet_type fire_config)
      (cfg_stations fire_config) = Ok fire_moving \<and>
    optimize_deployment rejected_deployment_backend (cfg_fleet_type police_config)
      (cfg_stations police_config) = Rejected \<and>
    stations (fetchAll rejected_deployment_backend [fire_config, police_config] initial_state) = [] \<and>
    trips (fetchAll rejected_deployment_backend [fire_config, police_config] initial_state) =
      Some SAMPLE_TRIPS)"
proof -
  have A: "optimize_deployment (police_only_backend police_moving) (cfg_fleet_type fire_config)
     (cfg_stations fire_config) = NotOk \<and>
   optimize_deployment (police_only_backend police_moving) (cfg_fleet_type police_config)
     (cfg_stations police_config) = Ok police_moving \<and>
   map (\<lambda>s. (station_id s, fleet_type s, inMove s))
     (stations (fetchAll (police_only_backend police_moving) [fire_config, police_config]
        initial_state)) =
     [(''P1'', police, True), (''P2'', police, True)] \<and>
   map_option (map id')
     (trips (fetchAll (police_only_backend police_moving) [fire_config, police_config]
        initial_state)) =
     Some [''police_P1_P2_0'']"
  proof -
    let ?b = "police_only_backend police_moving"
    have h1: "optimize_deployment ?b (cfg_fleet_type fire_config) (cfg_stations fire_config) = NotOk"
      by (simp add: example_defs)
    have h2: "optimize_deployment ?b (cfg_fleet_type police_config) (cfg_stations police_config) =
        Ok police_moving"
      by (simp add: example_defs)
    have rr: "routeResponses ?b (cfg_fleet_type police_config) police_moving =
        Inr [Some \<lparr>routeJson = two_points, move = hd (dr_moves police_moving),
                   from_station = station_of ''P1'' 3 3, to_station = station_of ''P2'' 4 4\<rparr>]"
      by (simp add: example_defs routeResponses_def route_callback_def stationById_def
          enumerate_eq_zip)
    from one_fleet_fails[where b = ?b and ?c1.0 = fire_config and ?c2.0 = police_config
        and d = police_moving and cf = fire_config and c = police_config and st = initial_state]
      h1 h2
    have c: "stations (fetchAll ?b [fire_config, police_config] initial_state) =
          fleet_stations police_config police_moving"
        "trips (fetchAll ?b [fire_config, police_config] initial_state) =
          Some (fleet_trips police_config police_moving
            [Some \<lparr>routeJson = two_points, move = hd (dr_moves police_moving),
                   from_station = station_of ''P1'' 3 3, to_station = station_of ''P2'' 4 4\<rparr>])"
      by (simp_all add: rr fleet_trips_def)
    have s: "map (\<lambda>s. (station_id s, fleet_type s, inMove s))
          (fleet_stations police_config police_moving) =
        [(''P1'', police, True), (''P2'', police, True)]"
      by (simp add: fleet_stations_def move_endpoints_def fleetFromBackend_def with_fleet_sel
          police_moving_def station_of_def)
    have t: "map id' (fleet_trips police_config police_moving
            [Some \<lparr>routeJson = two_points, move = hd (dr_moves police_moving),
                   from_station = station_of ''P1'' 3 3, to_station = station_of ''P2'' 4 4\<rparr>]) =
        [''police_P1_P2_0'']"
      by (simp add: fleet_trips_def fleetFromBackend_def police_moving_def baseTrip_def
          fleet_string_def decimal.simps)
    show ?thesis using h1 h2 by (simp add: c s t)
  qed
  have B: "optimize_deployment empty_route_backend (cfg_fleet_type fire_config)
     (cfg_stations fire_config) = Ok fire_moving \<and>
   optimize_deployment empty_route_backend (cfg_fleet_type police_config)
     (cfg_stations police_config) = NotOk \<and>
   map (\<lambda>s. (station_id s, fleet_type s, inMove s))
     (stations (fetchAll empty_route_backend [fire_config, police_config] initial_state)) =
     [(''S1'', fire, True), (''S2'', fire, True)] \<and>
   map_option (map id')
     (trips (fetchAll empty_route_backend [fire_config, police_config] initial_state)) =
     Some [''fire_S1_S2_0'']"
  proof -
    let ?b = "empty_route_backend"
    let ?e = "\<lparr>routeJson = \<lparr>points = []\<rparr>, move = hd (dr_moves fire_moving),
                   from_station = station_of ''S1'' 1 1, to_station = station_of ''S2'' 2 2\<rparr>"
    have h1: "optimize_deployment ?b (cfg_fleet_type fire_config) (cfg_stations fire_config) =
        Ok fire_moving"
      by (simp add: empty_route_backend_def example_defs)
    have h2: "optimize_deployment ?b (cfg_fleet_type police_config) (cfg_stations police_config) =
        NotOk"
      by (simp add: empty_route_backend_def example_defs)
    have rr: "routeResponses ?b (cfg_fleet_type fire_config) fire_moving = Inr [Some ?e]"
      by (simp add: empty_route_backend_def fire_moving_def example_defs routeResponses_def
          route_callback_def stationById_def enumerate_eq_zip)
    from one_fleet_fails[where b = ?b and ?c1.0 = fire_config and ?c2.0 = police_config
        and d = fire_moving and cf = police_config and c = fire_config and st = initial_state]
      h1 h2
    have c: "stations (fetchAll ?b [fire_config, police_config] initial_state) =
          fleet_stations fire_config fire_moving"
        "trips (fetchAll ?b [fire_config, police_config] initial_state) =
          Some (fleet_trips fire_config fire_moving [Some ?e])"
      by (simp_all add: rr fleet_trips_def)
    have s: "map (\<lambda>s. (station_id s, fleet_type s, inMove s))
          (fleet_stations fire_config fire_moving) =
        [(''S1'', fire, True), (''S2'', fire, True)]"
      by (simp add: fleet_stations_def move_endpoints_def fleetFromBackend_def with_fleet_sel
          fire_moving_def station_of_def)
    have t: "map id' (fleet_trips fire_config fire_moving [Some ?e]) = [''fire_S1_S2_0'']"
      by (simp add: fleet_trips_def fleetFromBackend_def fire_moving_def baseTrip_def
          fleet_string_def decimal.simps)
    show ?thesis using h1 h2 by (simp add: c s t)
  qed
  have C: "optimize_deployment rejected_deployment_backend (cfg_fleet_type fire_config)
      (cfg_stations fire_config) = Ok fire_moving \<and>
    optimize_deployment rejected_deployment_backend (cfg_fleet_type police_config)
      (cfg_stations police_config) = Rejected \<and>
    stations (fetchAll rejected_deployment_backend [fire_config, police_config] initial_state) = [] \<and>
    trips (fetchAll rejected_deployment_backend [fire_config, police_config] initial_state) =
      Some SAMPLE_TRIPS"
  proof -
    let ?b = rejected_deployment_backend
    have h1: "optimize_deployment ?b (cfg_fleet_type fire_config) (cfg_stations fire_config) =
        Ok fire_moving"
      by (simp add: rejected_deployment_backend_def example_defs)
    have h2: "optimize_deployment ?b (cfg_fleet_type police_config) (cfg_stations police_config) =
        Rejected"
      by (simp add: rejected_deployment_backend_def example_defs)
    from one_fleet_fails[where b = ?b and ?c1.0 = fire_config and ?c2.0 = police_config
        and d = fire_moving and cf = police_config and c = fire_config and st = initial_state]
      h1 h2
    show ?thesis by simp
  qed
  from A B C show ?thesis by blast
qed

lemma context_moves_SAMPLE: "context_moves (Some SAMPLE_TRIPS) = []"
  by (simp add: context_moves_def SAMPLE_TRIPS_def truthy_def)

text \<open>
  C2. When a run produces no trip, the trips are the one fallback trip, of id
  \<open>veh_101\<close>; it has no station ids, and the moves of the context are empty.
\<close>

theorem zero_trips_fallback:
  assumes "produced_trips b configs = []"
  shows "trips (fetchAll b configs st) = Some SAMPLE_TRIPS \<and>
         map id' SAMPLE_TRIPS = [''veh_101''] \<and>
         map (\<lambda>t. (fromStationId t, toStationId t)) SAMPLE_TRIPS = [(None, None)] \<and>
         context_moves (trips (fetchAll b configs st)) = []"
proof -
  have t: "trips (fetchAll b configs st) = Some SAMPLE_TRIPS"
    using assms by (simp add: fetchAll_def produced_trips_def split: sum.splits)
  show ?thesis by (simp add: t context_moves_SAMPLE) (simp add: SAMPLE_TRIPS_def)
qed

text \<open>C2 where each fleet has one station and no move: two stations, none of them in a
  move, no trip produced, the fallback trip, no move in the context.\<close>

theorem zero_trips_fallback_witness:
  "produced_trips idle_backend [fire_config, police_config] = [] \<and>
   map station_id (stations (fetchAll idle_backend [fire_config, police_config] initial_state)) =
     [''F1'', ''P1''] \<and>
   filter inMove (stations (fetchAll idle_backend [fire_config, police_config] initial_state)) = [] \<and>
   trips (fetchAll idle_backend [fire_config, police_config] initial_state) = Some SAMPLE_TRIPS \<and>
   context_moves (trips (fetchAll idle_backend [fire_config, police_config] initial_state)) = []"
proof -
  have p: "produced_trips idle_backend [fire_config, police_config] = []"
    by (simp add: idle_backend_def idle_deployment_def example_defs run_defs)
  have s: "map station_id
        (stations (fetchAll idle_backend [fire_config, police_config] initial_state)) =
      [''F1'', ''P1'']"
    "filter inMove (stations (fetchAll idle_backend [fire_config, police_config] initial_state)) = []"
    by (simp_all add: idle_backend_def idle_deployment_def example_defs run_defs)
  from zero_trips_fallback[OF p, of initial_state] p s show ?thesis by blast
qed

lemma promise_all_nth:
  "promise_all xs = Inr ys \<Longrightarrow>
   length ys = length xs \<and> (\<forall>i<length xs. xs ! i = Inr (ys ! i))"
proof (induction xs arbitrary: ys)
  case Nil
  then show ?case by simp
next
  case (Cons x xs)
  show ?case
  proof (cases x)
    case (Inl e)
    with Cons.prems show ?thesis by simp
  next
    case (Inr v)
    with Cons.prems obtain vs where vs: "promise_all xs = Inr vs" "ys = v # vs"
      by (auto split: sum.splits)
    from Cons.IH[OF vs(1)] have ih: "length vs = length xs" "\<forall>i<length xs. xs ! i = Inr (vs ! i)"
      by simp_all
    show ?thesis
    proof (intro conjI allI impI)
      show "length ys = length (x # xs)" using ih vs by simp
    next
      fix i assume "i < length (x # xs)"
      then show "(x # xs) ! i = Inr (ys ! i)" using ih vs Inr by (cases i) simp_all
    qed
  qed
qed

lemma routeResponses_nth:
  assumes "routeResponses b f d = Inr rs" and "i < length (dr_moves d)"
  shows "route_callback b f (stationById (dr_stations d)) i (dr_moves d ! i) = Inr (rs ! i)"
    and "length rs = length (dr_moves d)"
proof -
  let ?xs = "map (\<lambda>(i, m). route_callback b f (stationById (dr_stations d)) i m)
          (enumerate 0 (dr_moves d))"
  from assms(1) have p: "promise_all ?xs = Inr rs" by (simp add: routeResponses_def)
  from promise_all_nth[OF p] have l: "length rs = length ?xs"
    and n: "\<forall>i<length ?xs. ?xs ! i = Inr (rs ! i)" by simp_all
  show "length rs = length (dr_moves d)" using l by simp
  have "?xs ! i = route_callback b f (stationById (dr_stations d)) i (dr_moves d ! i)"
    using assms(2) by (simp add: nth_enumerate_eq)
  then show "route_callback b f (stationById (dr_stations d)) i (dr_moves d ! i) = Inr (rs ! i)"
    using n assms(2) by simp
qed

lemma assemble_trips_nth:
  "i < length rs \<Longrightarrow> rs ! i = Some e \<Longrightarrow> baseTrip f (k + i) e \<in> set (assemble_trips f k rs)"
proof (induction rs arbitrary: i k)
  case Nil
  then show ?case by simp
next
  case (Cons r rs)
  show ?case
  proof (cases i)
    case 0
    with Cons.prems show ?thesis by simp
  next
    case (Suc j)
    with Cons.prems have "j < length rs" "rs ! j = Some e" by simp_all
    from Cons.IH[OF this, of "Suc k"] have "baseTrip f (k + i) e \<in> set (assemble_trips f (Suc k) rs)"
      using Suc by simp
    then show ?thesis by (cases r) simp_all
  qed
qed

lemma fleets_loop_trips:
  assumes "fleets_loop b acc0 configs = Inr acc"
  shows "set (allTrips acc0) \<subseteq> set (allTrips acc) \<and>
         (\<forall>c d. c \<in> set configs \<longrightarrow>
            optimize_deployment b (cfg_fleet_type c) (cfg_stations c) = Ok d \<longrightarrow>
            (\<exists>rs. routeResponses b (cfg_fleet_type c) d = Inr rs \<and>
                  set (fleet_trips c d rs) \<subseteq> set (allTrips acc)))"
  using assms
proof (induction configs arbitrary: acc0)
  case Nil
  then show ?case by simp
next
  case (Cons c0 configs)
  from Cons.prems obtain acc1 where p: "process_fleet b acc0 c0 = Inr acc1"
    and l: "fleets_loop b acc1 configs = Inr acc"
    by (auto split: sum.splits)
  from Cons.IH[OF l] have ih1: "set (allTrips acc1) \<subseteq> set (allTrips acc)"
    and ih2: "\<forall>c d. c \<in> set configs \<longrightarrow>
            optimize_deployment b (cfg_fleet_type c) (cfg_stations c) = Ok d \<longrightarrow>
            (\<exists>rs. routeResponses b (cfg_fleet_type c) d = Inr rs \<and>
                  set (fleet_trips c d rs) \<subseteq> set (allTrips acc))"
    by simp_all
  have mono: "set (allTrips acc0) \<subseteq> set (allTrips acc1)"
    using p by (cases "optimize_deployment b (cfg_fleet_type c0) (cfg_stations c0)")
      (auto simp: process_fleet_def Let_def split: sum.splits)
  have head: "\<exists>rs. routeResponses b (cfg_fleet_type c0) d = Inr rs \<and>
                  set (fleet_trips c0 d rs) \<subseteq> set (allTrips acc)"
    if "optimize_deployment b (cfg_fleet_type c0) (cfg_stations c0) = Ok d" for d
  proof -
    from p process_fleet_Ok[OF that, of acc0] obtain rs where
      rs: "routeResponses b (cfg_fleet_type c0) d = Inr rs"
      and "allTrips acc1 = allTrips acc0 @ fleet_trips c0 d rs"
      by (auto split: sum.splits)
    then have "set (fleet_trips c0 d rs) \<subseteq> set (allTrips acc)" using ih1 by auto
    with rs show ?thesis by blast
  qed
  show ?case
  proof (intro conjI allI impI)
    show "set (allTrips acc0) \<subseteq> set (allTrips acc)" using mono ih1 by blast
  next
    fix c d
    assume "c \<in> set (c0 # configs)"
      and "optimize_deployment b (cfg_fleet_type c) (cfg_stations c) = Ok d"
    then show "\<exists>rs. routeResponses b (cfg_fleet_type c) d = Inr rs \<and>
                  set (fleet_trips c d rs) \<subseteq> set (allTrips acc)"
      using head ih2 by auto
  qed
qed

text \<open>The loop that assembles the trips never looks at the length of \<open>points\<close>: in a run
  that is not aborted, a move whose endpoints resolve and whose route request is answered
  \<open>ok\<close> with an empty list of points has its trip, with an empty path, in the trip list,
  which is then the list of the produced trips and not the fallback.\<close>

lemma empty_route_response_yields_trip:
  assumes "run_fleets b configs \<noteq> Inl Thrown"
    and "c \<in> set configs"
    and "optimize_deployment b (cfg_fleet_type c) (cfg_stations c) = Ok d"
    and "i < length (dr_moves d)"
    and "stationById (dr_stations d) (from_station_id (dr_moves d ! i)) = Some from"
    and "stationById (dr_stations d) (to_station_id (dr_moves d ! i)) = Some to"
    and "route b (cfg_fleet_type c) i
           \<lparr>start_lat = lat from, start_lon = lon from, end_lat = lat to, end_lon = lon to\<rparr> =
         Ok json"
    and "points json = []"
  shows "trips (fetchAll b configs st) = Some (produced_trips b configs) \<and>
         baseTrip (fleetFromBackend c d) i
           \<lparr>routeJson = json, move = dr_moves d ! i, from_station = from, to_station = to\<rparr>
           \<in> set (produced_trips b configs) \<and>
         path (baseTrip (fleetFromBackend c d) i
           \<lparr>routeJson = json, move = dr_moves d ! i, from_station = from, to_station = to\<rparr>) = []"
proof -
  let ?e = "\<lparr>routeJson = json, move = dr_moves d ! i, from_station = from, to_station = to\<rparr>"
  from assms(1) obtain acc where r: "run_fleets b configs = Inr acc"
    by (cases "run_fleets b configs") (auto intro: error.exhaust)
  then have l: "fleets_loop b no_accumulators configs = Inr acc"
    by (simp add: run_fleets_def)
  have pt: "produced_trips b configs = allTrips acc" by (simp add: produced_trips_def r)
  from fleets_loop_trips[OF l] assms(2,3) obtain rs where
    rs: "routeResponses b (cfg_fleet_type c) d = Inr rs"
    and sub: "set (fleet_trips c d rs) \<subseteq> set (allTrips acc)" by blast
  have cb: "route_callback b (cfg_fleet_type c) (stationById (dr_stations d)) i (dr_moves d ! i) =
      Inr (Some ?e)"
    using assms(5,6,7) by (simp add: route_callback_def)
  from routeResponses_nth[OF rs assms(4)] cb have n: "rs ! i = Some ?e" "i < length rs"
    using assms(4) by simp_all
  from assemble_trips_nth[OF n(2) n(1), of "fleetFromBackend c d" 0]
  have mem: "baseTrip (fleetFromBackend c d) i ?e \<in> set (allTrips acc)"
    using sub by (auto simp: fleet_trips_def)
  then have ne: "allTrips acc \<noteq> []" by auto
  have t: "trips (fetchAll b configs st) = Some (allTrips acc)"
    using r ne by (simp add: fetchAll_def)
  have p: "path (baseTrip (fleetFromBackend c d) i ?e) = []"
    using assms(8) by (simp add: baseTrip_def Let_def)
  from t mem p pt show ?thesis by simp
qed

text \<open>
  C3, at an input where the code departs from it.  The fire deployment has the stations
  \<open>S1\<close>, \<open>S2\<close> and the move from \<open>S1\<close> to \<open>S2\<close>, the route request is answered \<open>ok\<close>
  with an empty list of points, and the police request is not \<open>ok\<close>.  The trip of the
  move is not dropped: the trip list is that one trip, with an empty path, and not the
  fallback; \<open>maxTime\<close> is then 0, so that the clock does not advance.
\<close>

theorem empty_route_trip_kept:
  "route empty_route_backend fire 0
     \<lparr>start_lat = 1, start_lon = 1, end_lat = 2, end_lon = 2\<rparr> = Ok \<lparr>points = []\<rparr> \<and>
   map_option (map id')
     (trips (fetchAll empty_route_backend [fire_config, police_config] initial_state)) =
     Some [''fire_S1_S2_0''] \<and>
   map_option (map path)
     (trips (fetchAll empty_route_backend [fire_config, police_config] initial_state)) =
     Some [[]] \<and>
   trips (fetchAll empty_route_backend [fire_config, police_config] initial_state) \<noteq>
     Some SAMPLE_TRIPS \<and>
   maxTime (trips (fetchAll empty_route_backend [fire_config, police_config] initial_state)) = 0"
  by (simp add: empty_route_backend_def fire_moving_def example_defs run_defs decimal.simps
      maxTime_def terminal_time_def)
     (simp add: SAMPLE_TRIPS_def)

text \<open>
  C4, as amended. When the fire deployment returns the one station \<open>FS1\<close> and the one
  move from \<open>FS1\<close> to \<open>FS1\<close>, and the police fleet contributes no move, the move is not
  dropped: both endpoints resolve to the station and a route from it to itself is
  requested.  When that request is answered \<open>ok\<close>, the trip list is the one trip of the
  move and there is no fallback; when the answer is not \<open>ok\<close> no trip is produced and the
  fallback trip is substituted; when the request is rejected the run is aborted (no
  stations, the fallback trip).
\<close>

theorem self_move_is_routed:
  assumes "optimize_deployment b fire fireStations = Ok d"
    and "dr_stations d = [s]" and "station_id s = ''FS1''"
    and "dr_moves d = [m]" and "from_station_id m = ''FS1''" and "to_station_id m = ''FS1''"
    and "case optimize_deployment b police policeStations of
           Rejected \<Rightarrow> False | NotOk \<Rightarrow> True | Ok d' \<Rightarrow> dr_moves d' = []"
  shows "case route b fire 0
                \<lparr>start_lat = lat s, start_lon = lon s, end_lat = lat s, end_lon = lon s\<rparr> of
           Ok json \<Rightarrow>
             trips (fetchAll b [\<lparr>cfg_fleet_type = fire, cfg_stations = fireStations\<rparr>,
                                \<lparr>cfg_fleet_type = police, cfg_stations = policeStations\<rparr>] st) =
               Some [baseTrip (case dr_fleet_type d of Some f \<Rightarrow> f | None \<Rightarrow> fire) 0
                       \<lparr>routeJson = json, move = m, from_station = s, to_station = s\<rparr>]
         | NotOk \<Rightarrow>
             trips (fetchAll b [\<lparr>cfg_fleet_type = fire, cfg_stations = fireStations\<rparr>,
                                \<lparr>cfg_fleet_type = police, cfg_stations = policeStations\<rparr>] st) =
               Some SAMPLE_TRIPS
         | Rejected \<Rightarrow>
             trips (fetchAll b [\<lparr>cfg_fleet_type = fire, cfg_stations = fireStations\<rparr>,
                                \<lparr>cfg_fleet_type = police, cfg_stations = policeStations\<rparr>] st) =
               Some SAMPLE_TRIPS \<and>
             stations (fetchAll b [\<lparr>cfg_fleet_type = fire, cfg_stations = fireStations\<rparr>,
                                \<lparr>cfg_fleet_type = police, cfg_stations = policeStations\<rparr>] st) = []"
proof -
  let ?cf = "\<lparr>cfg_fleet_type = fire, cfg_stations = fireStations\<rparr>"
  let ?cp = "\<lparr>cfg_fleet_type = police, cfg_stations = policeStations\<rparr>"
  let ?req = "\<lparr>start_lat = lat s, start_lon = lon s, end_lat = lat s, end_lon = lon s\<rparr>"
  let ?f = "case dr_fleet_type d of Some f \<Rightarrow> f | None \<Rightarrow> fire"
  have byId: "stationById (dr_stations d) ''FS1'' = Some s"
    by (simp add: stationById_def assms(2,3))
  have cb: "route_callback b fire (stationById (dr_stations d)) 0 m =
      (case route b fire 0 ?req of
         Rejected \<Rightarrow> Inl Thrown | NotOk \<Rightarrow> Inr None
       | Ok json \<Rightarrow> Inr (Some \<lparr>routeJson = json, move = m, from_station = s, to_station = s\<rparr>))"
    by (simp add: route_callback_def assms(5,6) byId)
  have rr: "routeResponses b fire d =
      (case route b fire 0 ?req of
         Rejected \<Rightarrow> Inl Thrown | NotOk \<Rightarrow> Inr [None]
       | Ok json \<Rightarrow> Inr [Some \<lparr>routeJson = json, move = m, from_station = s, to_station = s\<rparr>])"
    by (simp add: routeResponses_def assms(4) enumerate_eq_zip cb split: response.splits)
  have fire_step: "process_fleet b no_accumulators ?cf =
      (case route b fire 0 ?req of
         Rejected \<Rightarrow> Inl Thrown
       | NotOk \<Rightarrow> Inr \<lparr>allStations = fleet_stations ?cf d, allTrips = [],
                       activeStationIds = move_endpoints (dr_moves d)\<rparr>
       | Ok json \<Rightarrow>
           Inr \<lparr>allStations = fleet_stations ?cf d,
                allTrips = [baseTrip ?f 0
                   \<lparr>routeJson = json, move = m, from_station = s, to_station = s\<rparr>],
                activeStationIds = move_endpoints (dr_moves d)\<rparr>)"
    using process_fleet_first_Ok[of b ?cf d] assms(1)
    by (simp add: rr fleet_trips_def fleetFromBackend_def split: response.splits option.splits)
  have police_step: "\<exists>acc'. process_fleet b acc ?cp = Inr acc' \<and> allTrips acc' = allTrips acc"
    for acc
  proof (cases "optimize_deployment b police policeStations")
    case Rejected
    with assms(7) show ?thesis by simp
  next
    case NotOk
    then show ?thesis by (simp add: process_fleet_def)
  next
    case (Ok d')
    with assms(7) have "dr_moves d' = []" by simp
    then show ?thesis using Ok
      by (simp add: process_fleet_def routeResponses_def Let_def)
  qed
  show ?thesis
  proof (cases "route b fire 0 ?req")
    case Rejected
    then show ?thesis using fire_step by (simp add: fetchAll_def run_fleets_def)
  next
    case NotOk
    let ?a = "\<lparr>allStations = fleet_stations ?cf d, allTrips = [],
                 activeStationIds = move_endpoints (dr_moves d)\<rparr>"
    from police_step[of ?a] obtain acc' where
      "process_fleet b ?a ?cp = Inr acc'" "allTrips acc' = []" by auto
    then show ?thesis using fire_step NotOk by (simp add: fetchAll_def run_fleets_def)
  next
    case (Ok json)
    let ?t = "baseTrip ?f 0 \<lparr>routeJson = json, move = m, from_station = s, to_station = s\<rparr>"
    let ?a = "\<lparr>allStations = fleet_stations ?cf d, allTrips = [?t],
                 activeStationIds = move_endpoints (dr_moves d)\<rparr>"
    from police_step[of ?a] obtain acc' where
      "process_fleet b ?a ?cp = Inr acc'" "allTrips acc' = [?t]" by auto
    then show ?thesis using fire_step Ok by (simp add: fetchAll_def run_fleets_def)
  qed
qed

text \<open>C4 as stated fails: with the station \<open>FS1\<close> at \<open>(47.60, -122.33)\<close>, the move from
  \<open>FS1\<close> to \<open>FS1\<close> and a successful route, the trip list is the trip \<open>fire_FS1_FS1_0\<close>,
  not the fallback.\<close>

theorem self_move_dropped_counterexample:
  "optimize_deployment fs1_backend fire [fs1_input] = Ok (fs1_deployment fire) \<and>
   dr_moves (fs1_deployment fire) =
     [\<lparr>from_station_id = ''FS1'', to_station_id = ''FS1'', move_fleet_type = fire\<rparr>] \<and>
   map_option (map id') (trips (fetchAll fs1_backend fs1_configs initial_state)) =
     Some [''fire_FS1_FS1_0''] \<and>
   map_option (map fromStationId) (trips (fetchAll fs1_backend fs1_configs initial_state)) =
     Some [Some ''FS1''] \<and>
   map_option (map toStationId) (trips (fetchAll fs1_backend fs1_configs initial_state)) =
     Some [Some ''FS1''] \<and>
   trips (fetchAll fs1_backend fs1_configs initial_state) \<noteq> Some SAMPLE_TRIPS"
  by (simp add: fs1_defs example_defs run_defs decimal.simps)
     (simp add: SAMPLE_TRIPS_def)

text \<open>The amended C4 at the same run.\<close>

theorem self_move_is_routed_witness:
  "optimize_deployment fs1_backend fire [fs1_input] = Ok (fs1_deployment fire) \<and>
   dr_stations (fs1_deployment fire) = [fs1_station] \<and> station_id fs1_station = ''FS1'' \<and>
   dr_moves (fs1_deployment fire) = [fs1_move] \<and>
   from_station_id fs1_move = ''FS1'' \<and> to_station_id fs1_move = ''FS1'' \<and>
   optimize_deployment fs1_backend police [] = Ok (fs1_deployment police) \<and>
   dr_moves (fs1_deployment police) = [] \<and>
   route fs1_backend fire 0
     \<lparr>start_lat = lat fs1_station, start_lon = lon fs1_station,
      end_lat = lat fs1_station, end_lon = lon fs1_station\<rparr> = Ok two_points \<and>
   trips (fetchAll fs1_backend
            [\<lparr>cfg_fleet_type = fire, cfg_stations = [fs1_input]\<rparr>,
             \<lparr>cfg_fleet_type = police, cfg_stations = []\<rparr>] initial_state) =
     Some [baseTrip fire 0
             \<lparr>routeJson = two_points, move = fs1_move, from_station = fs1_station,
              to_station = fs1_station\<rparr>]"
proof -
  have h1: "optimize_deployment fs1_backend fire [fs1_input] = Ok (fs1_deployment fire)"
    by (simp add: fs1_backend_def)
  have h2: "dr_stations (fs1_deployment fire) = [fs1_station]" by (simp add: fs1_deployment_def)
  have h3: "station_id fs1_station = ''FS1''" by (simp add: fs1_station_def)
  have h4: "dr_moves (fs1_deployment fire) = [fs1_move]" by (simp add: fs1_deployment_def)
  have h5: "from_station_id fs1_move = ''FS1''" by (simp add: fs1_move_def)
  have h6: "to_station_id fs1_move = ''FS1''" by (simp add: fs1_move_def)
  have p: "optimize_deployment fs1_backend police [] = Ok (fs1_deployment police)"
    "dr_moves (fs1_deployment police) = []"
    by (simp_all add: fs1_backend_def fs1_deployment_def)
  then have h7: "case optimize_deployment fs1_backend police [] of
           Rejected \<Rightarrow> False | NotOk \<Rightarrow> True | Ok d' \<Rightarrow> dr_moves d' = []"
    by simp
  have r: "route fs1_backend fire 0
     \<lparr>start_lat = lat fs1_station, start_lon = lon fs1_station,
      end_lat = lat fs1_station, end_lon = lon fs1_station\<rparr> = Ok two_points"
    by (simp add: fs1_backend_def example_route_def)
  have f: "dr_fleet_type (fs1_deployment fire) = Some fire" by (simp add: fs1_deployment_def)
  from self_move_is_routed[OF h1 h2 h3 h4 h5 h6 h7, of initial_state]
  show ?thesis using h1 h2 h3 h4 h5 h6 p by (simp add: r f)
qed

text \<open>When both deployment requests succeed, the stations of the first fleet are flagged by
  the moves of the first deployment, and those of the second fleet by the moves of both.\<close>

lemma later_fleet_flags:
  assumes "optimize_deployment b (cfg_fleet_type c1) (cfg_stations c1) = Ok d1"
    and "optimize_deployment b (cfg_fleet_type c2) (cfg_stations c2) = Ok d2"
    and "run_fleets b [c1, c2] = Inr acc"
  shows "map (\<lambda>s. (station_id s, inMove s)) (allStations acc) =
           map (\<lambda>s. (station_id s, station_id s \<in> move_endpoints (dr_moves d1))) (dr_stations d1) @
           map (\<lambda>s. (station_id s,
                  station_id s \<in> move_endpoints (dr_moves d1) \<union> move_endpoints (dr_moves d2)))
             (dr_stations d2)"
proof -
  from assms(3) obtain acc1 where
    p1: "process_fleet b no_accumulators c1 = Inr acc1"
    and p2: "process_fleet b acc1 c2 = Inr acc"
    by (auto simp: run_fleets_def split: sum.splits)
  from p1 process_fleet_first_Ok[OF assms(1)] have a1:
    "allStations acc1 = fleet_stations c1 d1"
    "activeStationIds acc1 = move_endpoints (dr_moves d1)"
    by (auto split: sum.splits)
  from p2 process_fleet_Ok[OF assms(2), of acc1] have a2:
    "allStations acc = allStations acc1 @
       map (with_fleet (fleetFromBackend c2 d2)
              (activeStationIds acc1 \<union> move_endpoints (dr_moves d2))) (dr_stations d2)"
    by (auto split: sum.splits)
  show ?thesis
    by (simp add: a2 a1 fleet_stations_def with_fleet_sel comp_def)
qed

text \<open>
  C5, at an input where the code departs from it.  The fire deployment has the stations
  \<open>S1\<close>, \<open>S2\<close> and the move from \<open>S1\<close> to \<open>S2\<close>; the police deployment has a station
  whose id is \<open>S1\<close> too, and no move.  The police station is flagged \<open>inMove\<close>: the set
  \<open>activeStationIds\<close> is shared by the fleets and still holds the endpoints of the fire
  moves.
\<close>

theorem inMove_leaks_across_fleets:
  "optimize_deployment shared_id_backend police [input_of ''S1'' 3 3] =
     Ok (shared_id_deployment police) \<and>
   dr_moves (shared_id_deployment police) = [] \<and>
   map station_id (stations (fetchAll shared_id_backend shared_id_configs initial_state)) =
     [''S1'', ''S2'', ''S1''] \<and>
   map fleet_type (stations (fetchAll shared_id_backend shared_id_configs initial_state)) =
     [fire, fire, police] \<and>
   map inMove (stations (fetchAll shared_id_backend shared_id_configs initial_state)) =
     [True, True, True]"
  by (simp add: shared_id_backend_def shared_id_deployment_def shared_id_configs_def
      fleetConfigs_def example_defs run_defs)


end
